theory Spec2Isabelle
  imports Complex_Main "HOL-Library.Signed_Division"
begin

section \<open>Exceptions and results\<close>

text \<open>
  The values of \<^verbatim>\<open>errno\<close> that the speaker code can tell apart: \<^verbatim>\<open>EINTR\<close> is retried by
  \<^verbatim>\<open>set_beep_frequency\<close>, \<^verbatim>\<open>EBADF\<close> is what \<^verbatim>\<open>write\<close> gives on the descriptor \<^verbatim>\<open>-1\<close>, every
  other value is kept by its number.
\<close>

datatype errno_t = EINTR | EBADF | Errno nat

text \<open>
  MicroPython exceptions, as far as the two modules raise or forward them. A raise is a
  non-local jump (\<^verbatim>\<open>nlr_jump\<close>); in the model it is the left injection of the result.
  \<^verbatim>\<open>Undefined\<close> marks a point where the C program has no defined behaviour (an integer
  division by zero, a store past the end of an array); the text names the place.
\<close>

datatype exn =
    ValueError string
  | OSError errno_t
  | RuntimeError string
  | TypeError
  | KeyboardInterrupt
  | SystemExit

datatype fault = Raised exn | Undefined string

section \<open>The note mini-language (\<^verbatim>\<open>ev3dev_Speaker_play_note\<close>, lines 118 to 279)\<close>

text \<open>
  \<^verbatim>\<open>note\<close> is a NUL-terminated C string: reading at the length of the string gives the
  terminator. The function never reads beyond a NUL it has seen (every test that meets
  it either raises or steps \<^verbatim>\<open>pos\<close> back), so reading the model's list past its end as NUL
  covers every read of the source.
\<close>

definition chr_at :: "string \<Rightarrow> nat \<Rightarrow> char" where
  "chr_at note pos = (if pos < length note then note ! pos else CHR 0x00)"

text \<open>
  \<^verbatim>\<open>note[pos++] - '0'\<close> as an \<^verbatim>\<open>int\<close>. The byte is read as unsigned; where \<^verbatim>\<open>char\<close> is signed
  the bytes from 128 give a negative number instead of one above 79, and both are
  outside every range the function accepts.
\<close>

definition digit_of :: "char \<Rightarrow> int" where
  "digit_of c = of_char c - 48"

definition quoted :: "string \<Rightarrow> string" where
  "quoted s = CHR 0x27 # s @ [CHR 0x27]"

text \<open>
  Lines 125 to 230: the note name. The result is \<^verbatim>\<open>freq\<close> and \<^verbatim>\<open>pos\<close> after the switch.
  \<^verbatim>\<open>freq\<close> is a \<^verbatim>\<open>double\<close>; the model keeps it as a rational number. The only operations
  on it are the multiplication by a power of two of line 238, which is exact in binary
  floating point, and the conversion \<^verbatim>\<open>(int)freq\<close> of line 281; the products are either
  integers whose factors are exact (24.50 and 27.50) or at least 1/25 away from the next
  integer, so the conversion of the double and the floor of the rational agree.
\<close>

definition note_name :: "string \<Rightarrow> fault + (rat \<times> nat)" where
  "note_name note =
    (let c = chr_at note 0; a = chr_at note 1 in
     if c = CHR ''C'' then
       (if a = CHR ''b'' then Inl (Raised (ValueError (quoted ''Cb'' @ '' is not allowed'')))
        else if a = CHR ''#'' then Inr (17.32, 2)
        else Inr (16.35, 1))
     else if c = CHR ''D'' then
       (if a = CHR ''b'' then Inr (17.32, 2)
        else if a = CHR ''#'' then Inr (19.45, 2)
        else Inr (18.35, 1))
     else if c = CHR ''E'' then
       (if a = CHR ''b'' then Inr (19.45, 2)
        else if a = CHR ''#'' then Inl (Raised (ValueError (quoted ''E#'' @ '' is not allowed'')))
        else Inr (20.60, 1))
     else if c = CHR ''F'' then
       (if a = CHR ''b'' then Inl (Raised (ValueError (quoted ''Fb'' @ '' is not allowed'')))
        else if a = CHR ''#'' then Inr (23.12, 2)
        else Inr (21.83, 1))
     else if c = CHR ''G'' then
       (if a = CHR ''b'' then Inr (23.12, 2)
        else if a = CHR ''#'' then Inr (25.96, 2)
        else Inr (24.50, 1))
     else if c = CHR ''A'' then
       (if a = CHR ''b'' then Inr (25.96, 2)
        else if a = CHR ''#'' then Inr (29.14, 2)
        else Inr (27.50, 1))
     else if c = CHR ''B'' then
       (if a = CHR ''b'' then Inr (29.14, 2)
        else if a = CHR ''#'' then Inl (Raised (ValueError (quoted ''B#'' @ '' is not allowed'')))
        else Inr (30.87, 1))
     else if c = CHR ''R'' then Inr (0, 1)
     else Inl (Raised (ValueError ''Missing note name A-G or R'')))"

text \<open>Lines 233 to 239: the octave digit, read only when \<^verbatim>\<open>freq != 0\<close>; \<^verbatim>\<open>freq *= 2 << octave\<close>.\<close>

definition note_octave :: "string \<Rightarrow> rat \<Rightarrow> nat \<Rightarrow> fault + (rat \<times> nat)" where
  "note_octave note freq pos =
    (if freq \<noteq> 0 then
       (let octave = digit_of (chr_at note pos) in
        if octave < 2 \<or> octave > 8 then Inl (Raised (ValueError ''Missing octave number 2-8''))
        else Inr (freq * of_int (push_bit (nat octave) 2), pos + 1))
     else Inr (freq, pos))"

text \<open>Lines 242 to 244: the delimiter.\<close>

definition note_slash :: "string \<Rightarrow> nat \<Rightarrow> fault + nat" where
  "note_slash note pos =
    (if chr_at note pos \<noteq> CHR ''/'' then Inl (Raised (ValueError (''Missing '' @ quoted ''/'')))
     else Inr (pos + 1))"

text \<open>Lines 247 to 259: one digit, and a second one when the next byte is a digit.\<close>

definition note_fraction :: "string \<Rightarrow> nat \<Rightarrow> fault + (int \<times> nat)" where
  "note_fraction note pos =
    (let fraction = digit_of (chr_at note pos) in
     if fraction < 0 \<or> fraction > 9
     then Inl (Raised (ValueError ''Missing fractional value 1, 2, 4, 8, etc.''))
     else
       (let fraction2 = digit_of (chr_at note (pos + 1)) in
        if fraction2 < 0 \<or> fraction2 > 9 then Inr (fraction, pos + 1)
        else Inr (fraction * 10 + fraction2, pos + 2)))"

text \<open>
  The outcome of the scan: the frequency, the duration in milliseconds after line 267,
  the \<^verbatim>\<open>release\<close> flag and the position the scan stopped at.
\<close>

record scanned =
  s_freq :: rat
  s_duration :: int
  s_release :: bool
  s_pos :: nat

text \<open>
  Lines 261 to 279. \<^verbatim>\<open>duration /= fraction\<close> is a division of two \<^verbatim>\<open>int\<close>s, truncating
  towards zero and undefined for a zero divisor. Nothing after line 279 looks at
  \<^verbatim>\<open>note[pos]\<close> again.
\<close>

definition note_decorations :: "string \<Rightarrow> rat \<Rightarrow> int \<Rightarrow> int \<Rightarrow> nat \<Rightarrow> fault + scanned" where
  "note_decorations note freq duration fraction pos =
    (if fraction = 0 then Inl (Undefined ''duration /= fraction: division by zero'')
     else
       (let d1 = duration sdiv fraction;
            dotted = (chr_at note pos = CHR ''.'');
            d2 = (if dotted then (3 * d1) sdiv 2 else d1);
            pos2 = (if dotted then pos + 1 else pos);
            tied = (chr_at note pos2 = CHR ''_'');
            pos3 = (if tied then pos2 + 1 else pos2)
        in Inr \<lparr>s_freq = freq, s_duration = d2, s_release = \<not> tied, s_pos = pos3\<rparr>))"

definition scan_note :: "string \<Rightarrow> int \<Rightarrow> fault + scanned" where
  "scan_note note duration =
    (case note_name note of
       Inl e \<Rightarrow> Inl e
     | Inr (freq0, pos0) \<Rightarrow>
        (case note_octave note freq0 pos0 of
           Inl e \<Rightarrow> Inl e
         | Inr (freq, pos1) \<Rightarrow>
            (case note_slash note pos1 of
               Inl e \<Rightarrow> Inl e
             | Inr pos2 \<Rightarrow>
                (case note_fraction note pos2 of
                   Inl e \<Rightarrow> Inl e
                 | Inr (fraction, pos3) \<Rightarrow> note_decorations note freq duration fraction pos3))))"

section \<open>The speaker object and the tone device\<close>

text \<open>
  \<^verbatim>\<open>ev3dev_Speaker_obj_t\<close>, field by field and with the source's spelling. A \<^verbatim>\<open>GError *\<close> is
  the message it points to, or \<^verbatim>\<open>None\<close> for \<^verbatim>\<open>NULL\<close>. \<^verbatim>\<open>int\<close>, \<^verbatim>\<open>int32_t\<close> and \<^verbatim>\<open>mp_int_t\<close> are
  all 32 bits wide on the EV3, so the conversions between them change nothing; the
  model uses \<open>int\<close> for the three. The arithmetic of \<^verbatim>\<open>play_notes\<close> stays far inside that
  range: the whole note is at most 240000 in absolute value, and it is only divided
  after that, or multiplied by 3 or 7 before a division.
\<close>

record speaker =
  intialized :: bool
  beep_fd :: int
  aplay_busy :: bool
  aplay_result :: bool
  aplay_error :: "string option"
  espeak_busy :: bool
  espeak_result :: bool
  espeak_error :: "string option"
  splice_busy :: bool
  splice_result :: int
  splice_error :: "string option"

text \<open>
  What the tone functions do to the world, in the order they do it: a line printed by
  \<^verbatim>\<open>perror\<close>, a call of \<^verbatim>\<open>set_beep_frequency\<close> with its value, a call of \<^verbatim>\<open>mp_hal_delay_ms\<close>
  with its argument.
\<close>

datatype event = Perror string | SetBeep int | Delay int

text \<open>
  The environment of the tone functions. \<open>dev_tone\<close> is the value the sound device last
  accepted. \<open>write_script\<close> and \<open>delay_script\<close> say how the next calls of \<^verbatim>\<open>write\<close> on an open
  descriptor and of \<^verbatim>\<open>mp_hal_delay_ms\<close> end: \<open>None\<close> is success, \<open>Some\<close> carries the \<^verbatim>\<open>errno\<close> of a
  failed write or the exception that interrupts the delay. A call beyond the end of
  its script succeeds.
\<close>

record hw =
  dev_tone :: int
  errno :: errno_t
  write_script :: "errno_t option list"
  delay_script :: "exn option list"
  trace :: "event list"

definition sizeof_input_event :: int where
  "sizeof_input_event = 16"

text \<open>
  \<^verbatim>\<open>write(fd, &event, sizeof(event))\<close> for an \<^verbatim>\<open>EV_SND\<close>/\<^verbatim>\<open>SND_TONE\<close> event. On a descriptor
  that is not open (\<^verbatim>\<open>open\<close> returned \<^verbatim>\<open>-1\<close>) it fails with \<^verbatim>\<open>EBADF\<close>.
\<close>

definition sys_write :: "int \<Rightarrow> int \<Rightarrow> hw \<Rightarrow> int \<times> hw" where
  "sys_write fd v w =
    (if fd < 0 then (- 1, w\<lparr>errno := EBADF\<rparr>)
     else
       (case write_script w of
          [] \<Rightarrow> (sizeof_input_event, w\<lparr>dev_tone := v\<rparr>)
        | None # rest \<Rightarrow> (sizeof_input_event, w\<lparr>dev_tone := v, write_script := rest\<rparr>)
        | Some e # rest \<Rightarrow> (- 1, w\<lparr>errno := e, write_script := rest\<rparr>)))"

text \<open>Lines 77 to 79: \<^verbatim>\<open>do { ret = write(...); } while (ret == -1 && errno == EINTR);\<close>\<close>

function write_until_done :: "int \<Rightarrow> int \<Rightarrow> hw \<Rightarrow> int \<times> hw" where
  "write_until_done fd v w =
    (case sys_write fd v w of
       (ret, w') \<Rightarrow> if ret = - 1 \<and> errno w' = EINTR then write_until_done fd v w' else (ret, w'))"
  by pat_completeness auto
termination
  by (relation "measure (\<lambda>(fd, v, w). length (write_script w))")
     (auto simp: sys_write_def sizeof_input_event_def split: if_splits list.splits option.splits)

definition set_beep_frequency :: "speaker \<Rightarrow> int \<Rightarrow> hw \<Rightarrow> int \<times> hw" where
  "set_beep_frequency self freq w =
     write_until_done (beep_fd self) freq (w\<lparr>trace := trace w @ [SetBeep freq]\<rparr>)"

text \<open>
  \<^verbatim>\<open>ev3dev_Speaker_make_new\<close>, lines 56 to 67. \<open>fd\<close> is what \<^verbatim>\<open>open\<close> returns for the input
  device: a descriptor, or \<^verbatim>\<open>-1\<close>.
\<close>

definition ev3dev_Speaker_make_new :: "int \<Rightarrow> speaker \<Rightarrow> hw \<Rightarrow> speaker \<times> hw" where
  "ev3dev_Speaker_make_new fd self w =
    (if \<not> intialized self then
       (self\<lparr>beep_fd := fd, intialized := True\<rparr>,
        if fd = - 1
        then w\<lparr>trace := trace w @ [Perror ''Failed to open input dev for sound, beep will not work'']\<rparr>
        else w)
     else (self, w))"

text \<open>\<^verbatim>\<open>mp_hal_delay_ms\<close>: it returns after the delay, or a pending exception leaves it.\<close>

definition mp_hal_delay_ms :: "int \<Rightarrow> hw \<Rightarrow> (fault + unit) \<times> hw" where
  "mp_hal_delay_ms ms w =
    (case delay_script w of
       [] \<Rightarrow> (Inr (), w\<lparr>trace := trace w @ [Delay ms]\<rparr>)
     | None # rest \<Rightarrow> (Inr (), w\<lparr>trace := trace w @ [Delay ms], delay_script := rest\<rparr>)
     | Some e # rest \<Rightarrow> (Inl (Raised e), w\<lparr>trace := trace w @ [Delay ms], delay_script := rest\<rparr>))"

text \<open>
  \<^verbatim>\<open>ev3dev_Speaker_beep\<close>, lines 84 to 115, after the arguments are bound to integers.
  The \<^verbatim>\<open>nlr_push\<close> block is the \<open>case\<close>: both branches call \<^verbatim>\<open>set_beep_frequency(self, 0)\<close>,
  the second one jumps on with the exception it caught. The call of line 94 narrows the
  \<^verbatim>\<open>mp_int_t\<close> to the \<^verbatim>\<open>int32_t\<close> parameter of \<^verbatim>\<open>set_beep_frequency\<close>; the model hands the value on as
  it is, which is what the source does for a frequency from -2147483648 to 2147483647,
  and what is stated about the value written is stated for that range.
\<close>

definition ev3dev_Speaker_beep :: "speaker \<Rightarrow> int \<Rightarrow> int \<Rightarrow> hw \<Rightarrow> (fault + unit) \<times> hw" where
  "ev3dev_Speaker_beep self frequency duration w =
    (case set_beep_frequency self frequency w of
       (ret, w1) \<Rightarrow>
         if ret = - 1 then (Inl (Raised (OSError (errno w1))), w1)
         else if duration < 0 then (Inr (), w1)
         else
           (case mp_hal_delay_ms duration w1 of
              (Inr u, w2) \<Rightarrow> (Inr (), snd (set_beep_frequency self 0 w2))
            | (Inl e, w2) \<Rightarrow> (Inl e, snd (set_beep_frequency self 0 w2))))"

section \<open>Melodies\<close>

datatype mp_obj = MP_str string | MP_int int | MP_bool bool | MP_none

text \<open>\<^verbatim>\<open>mp_obj_str_get_str\<close>: the bytes of a string object, a \<^verbatim>\<open>TypeError\<close> for any other object.\<close>

definition mp_obj_str_get_str :: "mp_obj \<Rightarrow> fault + string" where
  "mp_obj_str_get_str obj = (case obj of MP_str s \<Rightarrow> Inr s | _ \<Rightarrow> Inl (Raised TypeError))"

text \<open>
  \<^verbatim>\<open>ev3dev_Speaker_play_note\<close>: the scan of lines 119 to 279, then lines 281 to 293.
  \<^verbatim>\<open>(int)freq\<close> truncates; \<^verbatim>\<open>freq\<close> is never negative, so that is the floor.
\<close>

definition ev3dev_Speaker_play_note :: "speaker \<Rightarrow> mp_obj \<Rightarrow> int \<Rightarrow> hw \<Rightarrow> (fault + unit) \<times> hw" where
  "ev3dev_Speaker_play_note self obj duration w =
    (case mp_obj_str_get_str obj of
       Inl e \<Rightarrow> (Inl e, w)
     | Inr note \<Rightarrow>
        (case scan_note note duration of
           Inl e \<Rightarrow> (Inl e, w)
         | Inr s \<Rightarrow>
            (let w1 = snd (set_beep_frequency self \<lfloor>s_freq s\<rfloor> w) in
             if s_release s then
               (case mp_hal_delay_ms ((7 * s_duration s) sdiv 8) w1 of
                  (Inl e, w2) \<Rightarrow> (Inl e, w2)
                | (Inr u, w2) \<Rightarrow>
                    mp_hal_delay_ms (s_duration s sdiv 8) (snd (set_beep_frequency self 0 w2)))
             else mp_hal_delay_ms (s_duration s) w1)))"

text \<open>Lines 310 to 312: the \<^verbatim>\<open>while\<close> loop over the items of the iterable.\<close>

fun play_each :: "speaker \<Rightarrow> mp_obj list \<Rightarrow> int \<Rightarrow> hw \<Rightarrow> (fault + unit) \<times> hw" where
  "play_each self [] duration w = (Inr (), w)"
| "play_each self (item # rest) duration w =
    (case ev3dev_Speaker_play_note self item duration w of
       (Inl e, w') \<Rightarrow> (Inl e, w')
     | (Inr u, w') \<Rightarrow> play_each self rest duration w')"

text \<open>
  \<^verbatim>\<open>ev3dev_Speaker_play_notes\<close>, lines 296 to 324, for \<^verbatim>\<open>notes\<close> an iterable with the given
  items and \<^verbatim>\<open>tempo\<close> an integer. Line 304 divides by \<^verbatim>\<open>tempo\<close> before \<^verbatim>\<open>nlr_push\<close>. An
  exception raised inside the loop lands in the \<^verbatim>\<open>else\<close> branch of line 317; undefined
  behaviour has no handler.
\<close>

definition ev3dev_Speaker_play_notes :: "speaker \<Rightarrow> mp_obj list \<Rightarrow> int \<Rightarrow> hw \<Rightarrow> (fault + unit) \<times> hw" where
  "ev3dev_Speaker_play_notes self notes tempo w =
    (if tempo = 0 then (Inl (Undefined ''4 * 60 * 1000 / tempo: division by zero''), w)
     else
       (case play_each self notes ((4 * 60 * 1000) sdiv tempo) w of
          (Inr u, w1) \<Rightarrow> (Inr (), snd (set_beep_frequency self 0 w1))
        | (Inl (Raised e), w1) \<Rightarrow> (Inl (Raised e), snd (set_beep_frequency self 0 w1))
        | (Inl (Undefined u), w1) \<Rightarrow> (Inl (Undefined u), w1)))"

section \<open>The battery module\<close>

text \<open>
  What the battery driver measures. \<^verbatim>\<open>battery_percent\<close> and \<^verbatim>\<open>battery_low\<close> (lines 34 to 48 of
  \<^verbatim>\<open>modbattery.c\<close>) take no argument and call nothing; the model hands them the driver's
  state to say that they do not look at it.
\<close>

record pbdrv_battery =
  voltage_now :: nat
  current_now :: nat

definition battery_percent :: "pbdrv_battery \<Rightarrow> mp_obj" where
  "battery_percent b = MP_int 100"

definition battery_low :: "pbdrv_battery \<Rightarrow> mp_obj" where
  "battery_low b = MP_bool (0 \<noteq> (0::int))"

section \<open>The process pipeline (\<^verbatim>\<open>play_file\<close> and \<^verbatim>\<open>say\<close>)\<close>

datatype proc = Aplay | Espeak

text \<open>
  What \<^verbatim>\<open>g_subprocess_wait_check_finish\<close> reports: \<^verbatim>\<open>TRUE\<close>, or \<^verbatim>\<open>FALSE\<close> with the error set to
  a message. \<^verbatim>\<open>g_output_stream_splice_finish\<close> gives the number of bytes, or \<^verbatim>\<open>-1\<close> and an
  error.
\<close>

datatype wait_check = Exited_ok | Exited_failed string

datatype splice_finish = Spliced int | Splice_failed string

text \<open>A completion that the main loop hands to the callback registered for it.\<close>

datatype completion = Aplay_exit wait_check | Espeak_exit wait_check | Splice_end splice_finish

text \<open>
  One run of \<^verbatim>\<open>MICROPY_EVENT_POLL_HOOK\<close>, as the caller's loop sees it: the completions
  whose callbacks ran, and the exception that left the hook, if one did.
\<close>

datatype poll = Poll "completion list" "exn option"

fun poll_completions :: "poll \<Rightarrow> completion list" where
  "poll_completions (Poll cs x) = cs"

fun poll_exn :: "poll \<Rightarrow> exn option" where
  "poll_exn (Poll cs x) = x"

datatype gevent =
    Spawned proc
  | Error_free
  | Wait_async proc
  | Splice_async
  | Notified completion
  | Force_exit proc
  | Unref proc

text \<open>
  The environment of the pipeline. \<open>spawn_fails p\<close> is the message of the error with which
  \<^verbatim>\<open>g_subprocess_new\<close> fails for \<open>p\<close>, or \<open>None\<close> when the process starts. \<open>stderr_pipe p\<close> is what
  \<^verbatim>\<open>g_input_stream_read_all\<close> meets on the standard error of \<open>p\<close>: whether the read succeeds,
  and the bytes the process wrote. \<open>polls\<close> is the future of the event loop, \<open>glog\<close> the
  GLib calls made so far.
\<close>

record gio =
  spawn_fails :: "proc \<Rightarrow> string option"
  stderr_pipe :: "proc \<Rightarrow> bool \<times> string"
  polls :: "poll list"
  glog :: "gevent list"

text \<open>Lines 327 to 333, 409 to 415 and 417 to 423: the three callbacks.\<close>

definition ev3dev_Speaker_aplay_callback :: "wait_check \<Rightarrow> speaker \<Rightarrow> speaker" where
  "ev3dev_Speaker_aplay_callback res self =
    self\<lparr>aplay_error := (case res of Exited_ok \<Rightarrow> None | Exited_failed m \<Rightarrow> Some m),
         aplay_result := (case res of Exited_ok \<Rightarrow> True | Exited_failed m \<Rightarrow> False),
         aplay_busy := False\<rparr>"

definition ev3dev_Speaker_espeak_callback :: "wait_check \<Rightarrow> speaker \<Rightarrow> speaker" where
  "ev3dev_Speaker_espeak_callback res self =
    self\<lparr>espeak_error := (case res of Exited_ok \<Rightarrow> None | Exited_failed m \<Rightarrow> Some m),
         espeak_result := (case res of Exited_ok \<Rightarrow> True | Exited_failed m \<Rightarrow> False),
         espeak_busy := False\<rparr>"

definition ev3dev_Speaker_splice_callback :: "splice_finish \<Rightarrow> speaker \<Rightarrow> speaker" where
  "ev3dev_Speaker_splice_callback res self =
    self\<lparr>splice_error := (case res of Spliced n \<Rightarrow> None | Splice_failed m \<Rightarrow> Some m),
         splice_result := (case res of Spliced n \<Rightarrow> n | Splice_failed m \<Rightarrow> - 1),
         splice_busy := False\<rparr>"

fun dispatch :: "speaker \<Rightarrow> completion \<Rightarrow> speaker" where
  "dispatch self (Aplay_exit res) = ev3dev_Speaker_aplay_callback res self"
| "dispatch self (Espeak_exit res) = ev3dev_Speaker_espeak_callback res self"
| "dispatch self (Splice_end res) = ev3dev_Speaker_splice_callback res self"

definition event_poll_hook :: "poll \<Rightarrow> speaker \<Rightarrow> gio \<Rightarrow> exn option \<times> speaker \<times> gio" where
  "event_poll_hook p self g =
    (poll_exn p, foldl dispatch self (poll_completions p),
     g\<lparr>glog := glog g @ map Notified (poll_completions p)\<rparr>)"

text \<open>A \<^verbatim>\<open>char *\<close> printed with \<^verbatim>\<open>%s\<close>: the bytes before the first NUL.\<close>

definition c_string :: "string \<Rightarrow> string" where
  "c_string bytes = takeWhile (\<lambda>c. c \<noteq> CHR 0x00) bytes"

text \<open>
  Lines 383 to 395, and the same text at lines 494 to 506 and 516 to 528: the message
  for a process that failed. \<^verbatim>\<open>stderr_bytes\<close> has 4096 elements and the read asks for as
  many, so after a full read the store \<^verbatim>\<open>stderr_bytes[bytes_read] = '\0'\<close> is outside the
  array.
\<close>

definition failure_text :: "string option \<Rightarrow> bool \<times> string \<Rightarrow> fault + string" where
  "failure_text err pipe =
    (case err of
       None \<Rightarrow> Inl (Undefined ''error->message: the error is NULL'')
     | Some message \<Rightarrow>
        (let stderr_bytes = take 4096 (snd pipe); bytes_read = length stderr_bytes in
         if fst pipe \<and> bytes_read \<noteq> 0 then
           (if bytes_read < 4096 then Inr (c_string stderr_bytes)
            else Inl (Undefined ''stderr_bytes[4096]: store past the end of the array''))
         else Inr (c_string message)))"

text \<open>
  Lines 365 to 375: the \<^verbatim>\<open>do ... while (self->aplay_busy)\<close> loop. The last argument is
  \<^verbatim>\<open>nlr.ret_val\<close> when \<^verbatim>\<open>exception\<close> is set. The loop ends only when the flag is clear;
  a future that never clears it gives \<open>None\<close>.
\<close>

fun play_file_wait :: "poll list \<Rightarrow> speaker \<Rightarrow> gio \<Rightarrow> exn option \<Rightarrow> (speaker \<times> gio \<times> exn option) option" where
  "play_file_wait [] self g exc = None"
| "play_file_wait (p # ps) self g exc =
    (case event_poll_hook p self g of
       (x, self', g') \<Rightarrow>
         (let g'' = (case x of None \<Rightarrow> g' | Some e \<Rightarrow> g'\<lparr>glog := glog g' @ [Force_exit Aplay]\<rparr>);
              exc' = (case x of None \<Rightarrow> exc | Some e \<Rightarrow> Some e)
          in if aplay_busy self' then play_file_wait ps self' g'' exc'
             else Some (self', g''\<lparr>polls := ps\<rparr>, exc')))"

text \<open>Lines 377 to 405.\<close>

definition play_file_finish :: "exn option \<Rightarrow> speaker \<Rightarrow> gio \<Rightarrow> (fault + unit) \<times> gio" where
  "play_file_finish exc self g =
    (case exc of
       Some e \<Rightarrow> (Inl (Raised e), g\<lparr>glog := glog g @ [Unref Aplay]\<rparr>)
     | None \<Rightarrow>
        if \<not> aplay_result self then
          (case failure_text (aplay_error self) (stderr_pipe g Aplay) of
             Inl u \<Rightarrow> (Inl u, g)
           | Inr err_msg \<Rightarrow>
               (Inl (Raised (RuntimeError (''Playing file failed: '' @ err_msg))),
                g\<lparr>glog := glog g @ [Unref Aplay]\<rparr>))
        else (Inr (), g\<lparr>glog := glog g @ [Unref Aplay]\<rparr>))"

text \<open>\<^verbatim>\<open>ev3dev_Speaker_play_file\<close>, lines 335 to 406. \<open>None\<close>: the call never returns.\<close>

definition ev3dev_Speaker_play_file :: "speaker \<Rightarrow> mp_obj \<Rightarrow> gio \<Rightarrow> ((fault + unit) \<times> speaker \<times> gio) option" where
  "ev3dev_Speaker_play_file self file g =
    (case mp_obj_str_get_str file of
       Inl e \<Rightarrow> Some (Inl e, self, g)
     | Inr path \<Rightarrow>
        (case spawn_fails g Aplay of
           Some m \<Rightarrow>
             Some (Inl (Raised (RuntimeError (''Failed to spawn aplay: '' @ c_string m))), self,
                   g\<lparr>glog := glog g @ [Error_free]\<rparr>)
         | None \<Rightarrow>
            (case play_file_wait (polls g) (self\<lparr>aplay_busy := True\<rparr>)
                    (g\<lparr>glog := glog g @ [Spawned Aplay, Wait_async Aplay]\<rparr>) None of
               None \<Rightarrow> None
             | Some (self', g', exc) \<Rightarrow>
                 Some (fst (play_file_finish exc self' g'), self', snd (play_file_finish exc self' g')))))"

text \<open>Lines 474 to 485: the loop of \<^verbatim>\<open>say\<close>, over the three flags.\<close>

fun say_wait :: "poll list \<Rightarrow> speaker \<Rightarrow> gio \<Rightarrow> exn option \<Rightarrow> (speaker \<times> gio \<times> exn option) option" where
  "say_wait [] self g exc = None"
| "say_wait (p # ps) self g exc =
    (case event_poll_hook p self g of
       (x, self', g') \<Rightarrow>
         (let g'' = (case x of None \<Rightarrow> g'
                     | Some e \<Rightarrow> g'\<lparr>glog := glog g' @ [Force_exit Espeak, Force_exit Aplay]\<rparr>);
              exc' = (case x of None \<Rightarrow> exc | Some e \<Rightarrow> Some e)
          in if espeak_busy self' \<or> aplay_busy self' \<or> splice_busy self'
             then say_wait ps self' g'' exc'
             else Some (self', g''\<lparr>polls := ps\<rparr>, exc')))"

text \<open>Lines 487 to 540.\<close>

definition say_finish :: "exn option \<Rightarrow> speaker \<Rightarrow> gio \<Rightarrow> (fault + unit) \<times> gio" where
  "say_finish exc self g =
    (case exc of
       Some e \<Rightarrow> (Inl (Raised e), g\<lparr>glog := glog g @ [Unref Aplay, Unref Espeak]\<rparr>)
     | None \<Rightarrow>
        if \<not> aplay_result self then
          (case failure_text (aplay_error self) (stderr_pipe g Aplay) of
             Inl u \<Rightarrow> (Inl u, g)
           | Inr err_msg \<Rightarrow>
               (Inl (Raised (RuntimeError (''Saying text failed: '' @ err_msg))),
                g\<lparr>glog := glog g @ [Unref Aplay, Unref Espeak]\<rparr>))
        else if \<not> espeak_result self then
          (case failure_text (espeak_error self) (stderr_pipe g Espeak) of
             Inl u \<Rightarrow> (Inl u, g)
           | Inr err_msg \<Rightarrow>
               (Inl (Raised (RuntimeError (''Saying text failed: '' @ err_msg))),
                g\<lparr>glog := glog g @ [Unref Aplay, Unref Espeak]\<rparr>))
        else (Inr (), g\<lparr>glog := glog g @ [Unref Aplay, Unref Espeak]\<rparr>))"

text \<open>\<^verbatim>\<open>ev3dev_Speaker_say\<close>, lines 425 to 541.\<close>

definition ev3dev_Speaker_say :: "speaker \<Rightarrow> mp_obj \<Rightarrow> gio \<Rightarrow> ((fault + unit) \<times> speaker \<times> gio) option" where
  "ev3dev_Speaker_say self text g =
    (case mp_obj_str_get_str text of
       Inl e \<Rightarrow> Some (Inl e, self, g)
     | Inr text_ \<Rightarrow>
        (case spawn_fails g Espeak of
           Some m \<Rightarrow>
             Some (Inl (Raised (RuntimeError (''Failed to spawn espeak: '' @ c_string m))), self,
                   g\<lparr>glog := glog g @ [Error_free]\<rparr>)
         | None \<Rightarrow>
            (case spawn_fails g Aplay of
               Some m \<Rightarrow>
                 Some (Inl (Raised (RuntimeError (''Failed to spawn aplay: '' @ c_string m))), self,
                       g\<lparr>glog := glog g @ [Spawned Espeak, Error_free, Unref Espeak]\<rparr>)
             | None \<Rightarrow>
                (case say_wait (polls g)
                        (self\<lparr>espeak_busy := True, aplay_busy := True, splice_busy := True\<rparr>)
                        (g\<lparr>glog := glog g @ [Spawned Espeak, Spawned Aplay, Wait_async Espeak,
                                              Wait_async Aplay, Splice_async]\<rparr>) None of
                   None \<Rightarrow> None
                 | Some (self', g', exc) \<Rightarrow>
                     Some (fst (say_finish exc self' g'), self', snd (say_finish exc self' g'))))))"

section \<open>Starting states and the predicates of the statements\<close>

text \<open>The singleton before the first \<^verbatim>\<open>make_new\<close>: static storage, all zero.\<close>

definition new_speaker :: speaker where
  "new_speaker =
    \<lparr>intialized = False, beep_fd = 0,
     aplay_busy = False, aplay_result = False, aplay_error = None,
     espeak_busy = False, espeak_result = False, espeak_error = None,
     splice_busy = False, splice_result = 0, splice_error = None\<rparr>"

text \<open>A silent device on which every write succeeds and no delay is interrupted.\<close>

definition quiet_hw :: hw where
  "quiet_hw = \<lparr>dev_tone = 0, errno = Errno 0, write_script = [], delay_script = [], trace = []\<rparr>"

text \<open>
  The tone device works: the descriptor is open, and a write fails only to be retried
  (\<^verbatim>\<open>EINTR\<close>).
\<close>

definition write_ok :: "errno_t option \<Rightarrow> bool" where
  "write_ok r = (r = None \<or> r = Some EINTR)"

definition writes_succeed :: "speaker \<Rightarrow> hw \<Rightarrow> bool" where
  "writes_succeed self w = (0 \<le> beep_fd self \<and> list_all write_ok (write_script w))"

fun delays :: "event list \<Rightarrow> int list" where
  "delays [] = []"
| "delays (Delay ms # evs) = ms # delays evs"
| "delays (ev # evs) = delays evs"

fun is_undefined :: "fault + 'a \<Rightarrow> bool" where
  "is_undefined (Inl (Undefined u)) = True"
| "is_undefined r = False"

text \<open>The speaker after \<^verbatim>\<open>make_new\<close> has opened the sound device as descriptor 3.\<close>

definition open_speaker :: speaker where
  "open_speaker = fst (ev3dev_Speaker_make_new 3 new_speaker quiet_hw)"

text \<open>The speaker after \<^verbatim>\<open>make_new\<close> has failed to open the sound device.\<close>

definition mute_speaker :: speaker where
  "mute_speaker = fst (ev3dev_Speaker_make_new (- 1) new_speaker quiet_hw)"

text \<open>
  The notation as its grammar describes it, for the statements about the scanner: the
  note names it allows, each with the frequency of its pitch in octave 0, and the four
  spellings it refuses. A head is what a well-formed token starts with, up to the
  delimiter: \<^verbatim>\<open>R\<close>, or a note name and an octave digit from 2 to 8.
\<close>

definition pitch_table :: "(string \<times> rat) list" where
  "pitch_table =
    [(''C'', 16.35), (''C#'', 17.32), (''Db'', 17.32), (''D'', 18.35), (''D#'', 19.45),
     (''Eb'', 19.45), (''E'', 20.60), (''F'', 21.83), (''F#'', 23.12), (''Gb'', 23.12),
     (''G'', 24.50), (''G#'', 25.96), (''Ab'', 25.96), (''A'', 27.50), (''A#'', 29.14),
     (''Bb'', 29.14), (''B'', 30.87)]"

definition refused_spellings :: "string list" where
  "refused_spellings = [''Cb'', ''E#'', ''Fb'', ''B#'']"

definition note_heads :: "string list" where
  "note_heads = ''R'' # concat (map (\<lambda>p. map (\<lambda>octave. fst p @ [octave]) ''2345678'') pitch_table)"

text \<open>
  The vocabulary of the pipeline statements. An environment in which both processes start
  and write nothing to standard error, with a given future of the event loop; the polls
  a call has consumed; whether and with what a poll was interrupted; the completions
  that a list of polls delivers; what one poll adds to the log of a loop that kills the
  processes \<open>procs\<close> on an interruption.
\<close>

definition quiet_gio :: "poll list \<Rightarrow> gio" where
  "quiet_gio ps = \<lparr>spawn_fails = (\<lambda>p. None), stderr_pipe = (\<lambda>p. (True, [])), polls = ps, glog = []\<rparr>"

definition polls_run :: "gio \<Rightarrow> gio \<Rightarrow> poll list" where
  "polls_run g g' = take (length (polls g) - length (polls g')) (polls g)"

definition never_interrupted :: "poll list \<Rightarrow> bool" where
  "never_interrupted ps = list_all (\<lambda>p. poll_exn p = None) ps"

fun last_interrupt :: "poll list \<Rightarrow> exn option" where
  "last_interrupt [] = None"
| "last_interrupt (p # ps) = (case last_interrupt ps of Some e \<Rightarrow> Some e | None \<Rightarrow> poll_exn p)"

definition delivered :: "poll list \<Rightarrow> completion list" where
  "delivered ps = concat (map poll_completions ps)"

fun is_aplay_exit :: "completion \<Rightarrow> bool" where
  "is_aplay_exit (Aplay_exit res) = True"
| "is_aplay_exit c = False"

fun is_espeak_exit :: "completion \<Rightarrow> bool" where
  "is_espeak_exit (Espeak_exit res) = True"
| "is_espeak_exit c = False"

fun is_splice_end :: "completion \<Rightarrow> bool" where
  "is_splice_end (Splice_end res) = True"
| "is_splice_end c = False"

definition poll_glog :: "proc list \<Rightarrow> poll \<Rightarrow> gevent list" where
  "poll_glog procs p =
     map Notified (poll_completions p) @
     (case poll_exn p of None \<Rightarrow> [] | Some e \<Rightarrow> map Force_exit procs)"



definition failing_say_gio :: gio where
  "failing_say_gio =
     (quiet_gio [Poll [Espeak_exit (Exited_failed ''Child process exited with code 2'')] None,
                 Poll [Splice_end (Spliced 0),
                       Aplay_exit (Exited_failed ''Child process exited with code 1'')] None])
     \<lparr>stderr_pipe := (\<lambda>p. (True, case p of Aplay \<Rightarrow> ''aplay: bad header'' | Espeak \<Rightarrow> ''espeak: no voice''))\<rparr>"

definition flooded_say_gio :: gio where
  "flooded_say_gio =
     (quiet_gio [Poll [Espeak_exit (Exited_failed ''Child process exited with code 2'')] None,
                 Poll [Splice_end (Spliced 0),
                       Aplay_exit (Exited_failed ''Child process exited with code 1'')] None])
     \<lparr>stderr_pipe := (\<lambda>p. (True, case p of Aplay \<Rightarrow> replicate 4096 CHR ''x'' | Espeak \<Rightarrow> ''espeak: no voice''))\<rparr>"

definition flooded_play_gio :: gio where
  "flooded_play_gio =
     (quiet_gio [Poll [Aplay_exit (Exited_failed ''Child process exited with code 1'')] None])
     \<lparr>stderr_pipe := (\<lambda>p. (True, replicate 4096 CHR ''x''))\<rparr>"

section \<open>The tone device: auxiliary facts\<close>

declare write_until_done.simps [simp del]

lemma sizeof_input_event_neq: "sizeof_input_event \<noteq> - 1"
  by (simp add: sizeof_input_event_def)

lemma write_ok_simps: "write_ok None" "write_ok (Some e) = (e = EINTR)"
  by (simp_all add: write_ok_def)


lemma write_until_done_trace: "trace (snd (write_until_done fd v w)) = trace w"
proof (induction fd v w rule: write_until_done.induct)
  case (1 fd v w)
  show ?case
  proof (cases "sys_write fd v w")
    case (Pair ret w')
    have tr: "trace w' = trace w"
      using Pair by (auto simp: sys_write_def split: if_splits list.splits option.splits)
    show ?thesis
      using Pair tr "1.IH" [OF Pair [symmetric]]
      by (subst write_until_done.simps) (simp split: if_splits)
  qed
qed

lemma write_until_done_delay_script: "delay_script (snd (write_until_done fd v w)) = delay_script w"
proof (induction fd v w rule: write_until_done.induct)
  case (1 fd v w)
  show ?case
  proof (cases "sys_write fd v w")
    case (Pair ret w')
    have tr: "delay_script w' = delay_script w"
      using Pair by (auto simp: sys_write_def split: if_splits list.splits option.splits)
    show ?thesis
      using Pair tr "1.IH" [OF Pair [symmetric]]
      by (subst write_until_done.simps) (simp split: if_splits)
  qed
qed

lemma write_until_done_closed:
  "fd < 0 \<Longrightarrow> write_until_done fd v w = (- 1, w\<lparr>errno := EBADF\<rparr>)"
  by (subst write_until_done.simps) (simp add: sys_write_def)

lemma write_until_done_open:
  "0 \<le> fd \<Longrightarrow> list_all write_ok (write_script w) \<Longrightarrow>
   fst (write_until_done fd v w) = sizeof_input_event \<and>
   dev_tone (snd (write_until_done fd v w)) = v \<and>
   list_all write_ok (write_script (snd (write_until_done fd v w)))"
proof (induction fd v w rule: write_until_done.induct)
  case (1 fd v w)
  show ?case
  proof (cases "sys_write fd v w")
    case (Pair ret w')
    show ?thesis
    proof (cases "ret = - 1 \<and> errno w' = EINTR")
      case True
      have "list_all write_ok (write_script w')"
        using Pair "1.prems" by (auto simp: sys_write_def write_ok_simps split: if_splits list.splits option.splits)
      then show ?thesis
        using Pair True "1.IH" [OF Pair [symmetric] True] "1.prems"(1)
        by (subst (1 2 3) write_until_done.simps) simp
    next
      case False
      have "ret = sizeof_input_event \<and> dev_tone w' = v \<and> list_all write_ok (write_script w')"
        using Pair False "1.prems"
        by (auto simp: sys_write_def write_ok_simps split: if_splits list.splits option.splits)
      then show ?thesis
        using Pair False by (subst (1 2 3) write_until_done.simps) (simp add: sizeof_input_event_neq)
    qed
  qed
qed


lemma set_beep_frequency_trace:
  "trace (snd (set_beep_frequency self f w)) = trace w @ [SetBeep f]"
  by (simp add: set_beep_frequency_def write_until_done_trace)

lemma set_beep_frequency_delay_script:
  "delay_script (snd (set_beep_frequency self f w)) = delay_script w"
  by (simp add: set_beep_frequency_def write_until_done_delay_script)

lemma set_beep_frequency_closed:
  "beep_fd self < 0 \<Longrightarrow>
   set_beep_frequency self f w = (- 1, w\<lparr>trace := trace w @ [SetBeep f], errno := EBADF\<rparr>)"
  by (simp add: set_beep_frequency_def write_until_done_closed)

lemma set_beep_frequency_open:
  assumes "writes_succeed self w"
  shows "fst (set_beep_frequency self f w) = sizeof_input_event"
    and "dev_tone (snd (set_beep_frequency self f w)) = f"
    and "writes_succeed self (snd (set_beep_frequency self f w))"
  using assms write_until_done_open [of "beep_fd self" "w\<lparr>trace := trace w @ [SetBeep f]\<rparr>" f]
  by (simp_all add: set_beep_frequency_def writes_succeed_def)

lemma mp_hal_delay_ms_trace: "trace (snd (mp_hal_delay_ms ms w)) = trace w @ [Delay ms]"
  by (simp add: mp_hal_delay_ms_def split: list.splits option.splits)

lemma mp_hal_delay_ms_device:
  "dev_tone (snd (mp_hal_delay_ms ms w)) = dev_tone w"
  "write_script (snd (mp_hal_delay_ms ms w)) = write_script w"
  by (simp_all add: mp_hal_delay_ms_def split: list.splits option.splits)

lemma mp_hal_delay_ms_writes_succeed:
  "writes_succeed self (snd (mp_hal_delay_ms ms w)) = writes_succeed self w"
  by (simp add: writes_succeed_def mp_hal_delay_ms_device)

lemma mp_hal_delay_ms_result:
  "fst (mp_hal_delay_ms ms w) =
     (case delay_script w of Some e # rest \<Rightarrow> Inl (Raised e) | _ \<Rightarrow> Inr ())"
  by (simp add: mp_hal_delay_ms_def split: list.splits option.splits)

lemma mp_hal_delay_ms_not_undefined: "fst (mp_hal_delay_ms ms w) \<noteq> Inl (Undefined u)"
  by (simp add: mp_hal_delay_ms_def split: list.splits option.splits)

lemma play_note_writes_succeed:
  "writes_succeed self w \<Longrightarrow> writes_succeed self (snd (ev3dev_Speaker_play_note self obj d w))"
  by (auto simp: ev3dev_Speaker_play_note_def Let_def set_beep_frequency_open(3)
        mp_hal_delay_ms_writes_succeed
      split: sum.splits prod.splits
      dest: arg_cong [where f = "\<lambda>p. writes_succeed self (snd p)"])

lemma play_each_writes_succeed:
  "writes_succeed self w \<Longrightarrow> writes_succeed self (snd (play_each self items d w))"
proof (induction items arbitrary: w)
  case Nil
  then show ?case by simp
next
  case (Cons item rest)
  obtain r w1 where n: "ev3dev_Speaker_play_note self item d w = (r, w1)"
    by (cases "ev3dev_Speaker_play_note self item d w")
  have w1: "writes_succeed self w1"
    using play_note_writes_succeed [OF Cons.prems, of item d] n by simp
  show ?case
    using n w1 Cons.IH [OF w1] by (cases r) simp_all
qed

lemma scan_C4_quarter:
  "scan_note ''C4/4'' 2000 = Inr \<lparr>s_freq = 523.2, s_duration = 500, s_release = True, s_pos = 4\<rparr>"
  by (simp add: scan_note_def note_name_def note_octave_def note_slash_def note_fraction_def
      note_decorations_def chr_at_def digit_of_def signed_divide_int_def)

lemma scan_C4_whole:
  "scan_note ''C4/1'' 2000 = Inr \<lparr>s_freq = 523.2, s_duration = 2000, s_release = True, s_pos = 4\<rparr>"
  by (simp add: scan_note_def note_name_def note_octave_def note_slash_def note_fraction_def
      note_decorations_def chr_at_def digit_of_def signed_divide_int_def)

lemma release_note_trace:
  assumes "scan_note note d = Inr s" and "s_release s" and "delay_script w = []"
  shows "ev3dev_Speaker_play_note self (MP_str note) d w =
           (Inr (), (snd (set_beep_frequency self 0
               ((snd (set_beep_frequency self \<lfloor>s_freq s\<rfloor> w))
                  \<lparr>trace := trace w @ [SetBeep \<lfloor>s_freq s\<rfloor>, Delay ((7 * s_duration s) sdiv 8)]\<rparr>)))
               \<lparr>trace := trace w @ [SetBeep \<lfloor>s_freq s\<rfloor>, Delay ((7 * s_duration s) sdiv 8), SetBeep 0,
                    Delay (s_duration s sdiv 8)]\<rparr>)"
  using assms
  by (simp add: ev3dev_Speaker_play_note_def mp_obj_str_get_str_def Let_def mp_hal_delay_ms_def
      set_beep_frequency_delay_script set_beep_frequency_trace)

lemma open_speaker_fd: "beep_fd open_speaker = 3"
  by (simp add: open_speaker_def ev3dev_Speaker_make_new_def new_speaker_def)

lemma mute_speaker_fd: "beep_fd mute_speaker = - 1"
  by (simp add: mute_speaker_def ev3dev_Speaker_make_new_def new_speaker_def)

lemma writes_succeed_open_speaker:
  "list_all write_ok (write_script w) \<Longrightarrow> writes_succeed open_speaker w"
  by (simp add: writes_succeed_def open_speaker_fd)

section \<open>Beep\<close>

text \<open>
  Claim C9. On a working tone device, and for a frequency that fits the \<^verbatim>\<open>int32_t\<close> the
  device takes, \<^verbatim>\<open>beep(frequency, duration)\<close> first commands the tone at \<open>frequency\<close>. For a
  negative duration it returns at once and the device keeps sounding
  at that frequency. For a duration of zero or more it delays for \<open>duration\<close> and then
  commands frequency 0; when the delay is left by an exception, the tone is silenced in
  the same way and the call ends with that exception.
\<close>

theorem beep_behaviour:
  assumes dev: "writes_succeed self w"
    and range: "- 2147483648 \<le> frequency" "frequency \<le> 2147483647"
  shows "(duration < 0 \<longrightarrow>
            fst (ev3dev_Speaker_beep self frequency duration w) = Inr () \<and>
            trace (snd (ev3dev_Speaker_beep self frequency duration w)) = trace w @ [SetBeep frequency] \<and>
            dev_tone (snd (ev3dev_Speaker_beep self frequency duration w)) = frequency)
       \<and> (0 \<le> duration \<longrightarrow>
            fst (ev3dev_Speaker_beep self frequency duration w) =
              (case delay_script w of Some e # rest \<Rightarrow> Inl (Raised e) | _ \<Rightarrow> Inr ()) \<and>
            trace (snd (ev3dev_Speaker_beep self frequency duration w)) =
              trace w @ [SetBeep frequency, Delay duration, SetBeep 0] \<and>
            dev_tone (snd (ev3dev_Speaker_beep self frequency duration w)) = 0)"
proof (cases "set_beep_frequency self frequency w")
  case (Pair ret w1)
  have ret: "ret \<noteq> - 1"
    using set_beep_frequency_open(1) [OF dev, of frequency] Pair
    by (simp add: sizeof_input_event_neq)
  have w1: "trace w1 = trace w @ [SetBeep frequency]" "dev_tone w1 = frequency"
    "writes_succeed self w1" "delay_script w1 = delay_script w"
    using set_beep_frequency_trace [of self frequency w]
      set_beep_frequency_open(2,3) [OF dev, of frequency]
      set_beep_frequency_delay_script [of self frequency w] Pair
    by simp_all
  show ?thesis
  proof (cases "duration < 0")
    case True
    then show ?thesis
      using Pair ret w1 by (simp add: ev3dev_Speaker_beep_def)
  next
    case False
    obtain r w2 where d: "mp_hal_delay_ms duration w1 = (r, w2)"
      by (cases "mp_hal_delay_ms duration w1")
    have w2: "trace w2 = trace w1 @ [Delay duration]" "writes_succeed self w2"
      and r: "r = (case delay_script w of Some e # rest \<Rightarrow> Inl (Raised e) | _ \<Rightarrow> Inr ())"
      using mp_hal_delay_ms_trace [of duration w1]
        mp_hal_delay_ms_writes_succeed [of self duration w1]
        mp_hal_delay_ms_result [of duration w1] d w1
      by simp_all
    have fin: "trace (snd (set_beep_frequency self 0 w2)) = trace w @ [SetBeep frequency, Delay duration, SetBeep 0]"
      "dev_tone (snd (set_beep_frequency self 0 w2)) = 0"
      using set_beep_frequency_trace [of self 0 w2] set_beep_frequency_open(2) [OF w2(2), of 0] w2 w1
      by simp_all
    have res: "ev3dev_Speaker_beep self frequency duration w = (r, snd (set_beep_frequency self 0 w2))"
      using Pair ret False d by (cases r) (simp_all add: ev3dev_Speaker_beep_def)
    show ?thesis
      using False fin r unfolding res by simp
  qed
qed

theorem beep_behaviour_witness:
  "writes_succeed open_speaker (quiet_hw\<lparr>write_script := [Some EINTR], delay_script := [Some KeyboardInterrupt]\<rparr>)
   \<and> - 2147483648 \<le> (500::int) \<and> (500::int) \<le> 2147483647
   \<and> dev_tone (snd (ev3dev_Speaker_beep open_speaker 500 (- 1)
        (quiet_hw\<lparr>write_script := [Some EINTR], delay_script := [Some KeyboardInterrupt]\<rparr>))) = 500
   \<and> fst (ev3dev_Speaker_beep open_speaker 500 100
        (quiet_hw\<lparr>write_script := [Some EINTR], delay_script := [Some KeyboardInterrupt]\<rparr>))
       = Inl (Raised KeyboardInterrupt)
   \<and> trace (snd (ev3dev_Speaker_beep open_speaker 500 100
        (quiet_hw\<lparr>write_script := [Some EINTR], delay_script := [Some KeyboardInterrupt]\<rparr>)))
       = [SetBeep 500, Delay 100, SetBeep 0]
   \<and> dev_tone (snd (ev3dev_Speaker_beep open_speaker 500 100
        (quiet_hw\<lparr>write_script := [Some EINTR], delay_script := [Some KeyboardInterrupt]\<rparr>))) = 0"
proof -
  let ?w = "quiet_hw\<lparr>write_script := [Some EINTR], delay_script := [Some KeyboardInterrupt]\<rparr>"
  have h: "writes_succeed open_speaker ?w"
    by (simp add: writes_succeed_open_speaker quiet_hw_def write_ok_simps)
  have lo: "- 2147483648 \<le> (500::int)" and hi: "(500::int) \<le> 2147483647"
    by simp_all
  show ?thesis
    using h beep_behaviour [OF h lo hi, of "- 1"] beep_behaviour [OF h lo hi, of 100]
    by (simp add: quiet_hw_def)
qed

section \<open>A tone device that did not open\<close>

text \<open>
  Claim C4, as the claim states it, fails: on the speaker whose device did not open,
  \<^verbatim>\<open>beep\<close> raises \<^verbatim>\<open>OSError\<close> with \<^verbatim>\<open>EBADF\<close>.
\<close>

theorem beep_on_mute_speaker_raises:
  "fst (ev3dev_Speaker_beep mute_speaker 500 100 (snd (ev3dev_Speaker_make_new (- 1) new_speaker quiet_hw)))
     = Inl (Raised (OSError EBADF))"
  by (simp add: ev3dev_Speaker_beep_def set_beep_frequency_closed mute_speaker_fd)

text \<open>
  Claim C4, amended. When \<^verbatim>\<open>open\<close> fails, \<^verbatim>\<open>make_new\<close> prints the failure with \<^verbatim>\<open>perror\<close> and
  raises nothing, and a later \<^verbatim>\<open>make_new\<close> changes and prints nothing. From then on every
  \<^verbatim>\<open>set_beep_frequency\<close> returns \<^verbatim>\<open>-1\<close> with \<^verbatim>\<open>EBADF\<close> and leaves the device as it was, and
  every \<^verbatim>\<open>beep\<close> raises \<^verbatim>\<open>OSError\<close> with \<^verbatim>\<open>EBADF\<close> before any delay.
\<close>

theorem open_failure_behaviour:
  assumes "\<not> intialized self0" and "ev3dev_Speaker_make_new (- 1) self0 w0 = (self, w1)"
  shows "trace w1 = trace w0 @ [Perror ''Failed to open input dev for sound, beep will not work'']
       \<and> ev3dev_Speaker_make_new fd self w = (self, w)
       \<and> set_beep_frequency self freq w = (- 1, w\<lparr>trace := trace w @ [SetBeep freq], errno := EBADF\<rparr>)
       \<and> ev3dev_Speaker_beep self freq ms w =
           (Inl (Raised (OSError EBADF)), w\<lparr>trace := trace w @ [SetBeep freq], errno := EBADF\<rparr>)"
proof -
  have self: "beep_fd self = - 1" "intialized self" and w1: "trace w1 = trace w0 @ [Perror ''Failed to open input dev for sound, beep will not work'']"
    using assms by (auto simp: ev3dev_Speaker_make_new_def)
  have closed: "set_beep_frequency self freq w = (- 1, w\<lparr>trace := trace w @ [SetBeep freq], errno := EBADF\<rparr>)"
    using self(1) by (simp add: set_beep_frequency_closed)
  show ?thesis
    using w1 closed self(2) by (simp add: ev3dev_Speaker_beep_def ev3dev_Speaker_make_new_def)
qed

theorem open_failure_behaviour_witness:
  "\<not> intialized new_speaker
   \<and> ev3dev_Speaker_make_new (- 1) new_speaker quiet_hw
       = (mute_speaker, snd (ev3dev_Speaker_make_new (- 1) new_speaker quiet_hw))
   \<and> ev3dev_Speaker_beep mute_speaker 500 100 quiet_hw =
       (Inl (Raised (OSError EBADF)), quiet_hw\<lparr>trace := trace quiet_hw @ [SetBeep 500], errno := EBADF\<rparr>)"
proof -
  have a: "\<not> intialized new_speaker"
    by (simp add: new_speaker_def)
  have b: "ev3dev_Speaker_make_new (- 1) new_speaker quiet_hw
       = (mute_speaker, snd (ev3dev_Speaker_make_new (- 1) new_speaker quiet_hw))"
    by (simp add: mute_speaker_def)
  show ?thesis
    using a b open_failure_behaviour [OF a b, of 0 quiet_hw 500 100] by simp
qed

section \<open>Melodies end in silence\<close>

text \<open>
  Whenever \<^verbatim>\<open>play_notes\<close> returns or raises, its last action on the world is
  \<^verbatim>\<open>set_beep_frequency(self, 0)\<close>: after the loop when every note was played, also when the
  last one is tied, and in the handler when a note raised. On a working device the tone
  register is then 0. Undefined behaviour inside the loop is not covered by it.
\<close>

lemma play_notes_silences:
  assumes "ev3dev_Speaker_play_notes self items tempo w = (r, w')"
    and "\<not> is_undefined r"
  shows "trace w' \<noteq> [] \<and> last (trace w') = SetBeep 0 \<and> (writes_succeed self w \<longrightarrow> dev_tone w' = 0)"
proof -
  have t: "tempo \<noteq> 0"
    using assms by (auto simp: ev3dev_Speaker_play_notes_def)
  obtain r1 w1 where e: "play_each self items ((4 * 60 * 1000) sdiv tempo) w = (r1, w1)"
    by (cases "play_each self items ((4 * 60 * 1000) sdiv tempo) w")
  have w': "w' = snd (set_beep_frequency self 0 w1)"
    using assms t e
    by (auto simp: ev3dev_Speaker_play_notes_def split: sum.splits fault.splits)
  have ws: "writes_succeed self w \<Longrightarrow> writes_succeed self w1"
    using play_each_writes_succeed [of self w items "(4 * 60 * 1000) sdiv tempo"] e by simp
  show ?thesis
    unfolding w'
    using set_beep_frequency_trace [of self 0 w1] set_beep_frequency_open(2) [OF ws, of 0]
    by simp
qed

text \<open>
  Claim C6. The melody \<^verbatim>\<open>C4/4_\<close>, \<^verbatim>\<open>C2/0\<close> at tempo 120: the first note is tied, so the tone
  stays at 523 after its 500 ms; the fraction 0 of the second token passes the test of
  line 248 and line 261 divides by it inside the \<^verbatim>\<open>nlr_push\<close> block. No handler runs and
  nothing more is written: the device is left sounding at 523, where the claim promises
  a tone set to 0 after a note that fails to parse.
\<close>

theorem zero_fraction_leaves_tone_sounding:
  "fst (ev3dev_Speaker_play_notes open_speaker [MP_str ''C4/4_'', MP_str ''C2/0''] 120 quiet_hw)
     = Inl (Undefined ''duration /= fraction: division by zero'')
   \<and> trace (snd (ev3dev_Speaker_play_notes open_speaker [MP_str ''C4/4_'', MP_str ''C2/0''] 120 quiet_hw))
     = [SetBeep 523, Delay 500]
   \<and> dev_tone (snd (ev3dev_Speaker_play_notes open_speaker [MP_str ''C4/4_'', MP_str ''C2/0''] 120 quiet_hw))
     = 523"
  by code_simp

section \<open>The battery module\<close>

text \<open>
  Claim C10. Whatever the battery driver measures, \<^verbatim>\<open>battery.percent()\<close> is the integer 100
  and \<^verbatim>\<open>battery.low()\<close> is \<^verbatim>\<open>False\<close>.
\<close>

theorem battery_constants:
  "battery_percent b = MP_int 100 \<and> battery_low b = MP_bool False"
  by (simp add: battery_percent_def battery_low_def)

section \<open>Note timing\<close>

lemma scan_C4_tied_whole:
  "scan_note ''C4/1_'' 2000 = Inr \<lparr>s_freq = 523.2, s_duration = 2000, s_release = False, s_pos = 5\<rparr>"
  by (simp add: scan_note_def note_name_def note_octave_def note_slash_def note_fraction_def
      note_decorations_def chr_at_def digit_of_def signed_divide_int_def)

lemma tied_note_trace:
  assumes "scan_note note d = Inr s" and "\<not> s_release s" and "delay_script w = []"
  shows "ev3dev_Speaker_play_note self (MP_str note) d w =
           (Inr (), (snd (set_beep_frequency self \<lfloor>s_freq s\<rfloor> w))
               \<lparr>trace := trace w @ [SetBeep \<lfloor>s_freq s\<rfloor>, Delay (s_duration s)]\<rparr>)"
  using assms
  by (simp add: ev3dev_Speaker_play_note_def mp_obj_str_get_str_def Let_def mp_hal_delay_ms_def
      set_beep_frequency_delay_script set_beep_frequency_trace)

text \<open>
  Claim C1, as the claim states it, fails: at tempo 120 the token \<^verbatim>\<open>C4/4\<close> delays for 437 ms
  and then for 62 ms, not for 1750 ms and 250 ms.
\<close>

theorem quarter_note_is_not_1750_250:
  "delays (trace (snd (ev3dev_Speaker_play_notes open_speaker [MP_str ''C4/4''] 120 quiet_hw))) = [437, 62]
   \<and> delays (trace (snd (ev3dev_Speaker_play_notes open_speaker [MP_str ''C4/4''] 120 quiet_hw))) \<noteq> [1750, 250]"
  by code_simp

text \<open>
  Claim C1, amended. At tempo 120 the whole note lasts 4 * 60000 / 120 = 2000 ms: the tied
  whole note \<^verbatim>\<open>C4/1_\<close> holds its tone for 2000 ms, and the whole note \<^verbatim>\<open>C4/1\<close> sounds for 1750 ms
  and is silent for 250 ms. The quarter note \<^verbatim>\<open>C4/4\<close> lasts 2000 / 4 = 500 ms: it sounds
  for 7 * 500 / 8 = 437 ms and is silent for 500 / 8 = 62 ms, both rounded down.
\<close>

theorem note_timing_at_tempo_120:
  assumes "delay_script w = []"
  shows "trace (snd (ev3dev_Speaker_play_notes self [MP_str ''C4/1_''] 120 w))
           = trace w @ [SetBeep 523, Delay 2000, SetBeep 0]
       \<and> trace (snd (ev3dev_Speaker_play_notes self [MP_str ''C4/1''] 120 w))
           = trace w @ [SetBeep 523, Delay 1750, SetBeep 0, Delay 250, SetBeep 0]
       \<and> trace (snd (ev3dev_Speaker_play_notes self [MP_str ''C4/4''] 120 w))
           = trace w @ [SetBeep 523, Delay 437, SetBeep 0, Delay 62, SetBeep 0]
       \<and> fst (ev3dev_Speaker_play_notes self [MP_str ''C4/4''] 120 w) = Inr ()"
proof -
  have whole: "(4 * 60 * 1000) sdiv (120::int) = 2000"
    by (simp add: signed_divide_int_def)
  have fl: "\<lfloor>2616 / 5 :: rat\<rfloor> = 523"
    by (simp add: floor_eq_iff)
  have a: "trace (snd (ev3dev_Speaker_play_notes self [MP_str ''C4/1_''] 120 w))
           = trace w @ [SetBeep 523, Delay 2000, SetBeep 0]"
    using tied_note_trace [OF scan_C4_tied_whole _ assms, of self]
    by (simp add: ev3dev_Speaker_play_notes_def whole fl set_beep_frequency_trace)
  have b: "trace (snd (ev3dev_Speaker_play_notes self [MP_str ''C4/1''] 120 w))
           = trace w @ [SetBeep 523, Delay 1750, SetBeep 0, Delay 250, SetBeep 0]"
    using release_note_trace [OF scan_C4_whole _ assms, of self]
    by (simp add: ev3dev_Speaker_play_notes_def whole fl set_beep_frequency_trace signed_divide_int_def)
  have c: "trace (snd (ev3dev_Speaker_play_notes self [MP_str ''C4/4''] 120 w))
           = trace w @ [SetBeep 523, Delay 437, SetBeep 0, Delay 62, SetBeep 0]"
      "fst (ev3dev_Speaker_play_notes self [MP_str ''C4/4''] 120 w) = Inr ()"
    using release_note_trace [OF scan_C4_quarter _ assms, of self]
    by (simp_all add: ev3dev_Speaker_play_notes_def whole fl set_beep_frequency_trace signed_divide_int_def)
  show ?thesis
    using a b c by simp
qed

theorem note_timing_at_tempo_120_witness:
  "delay_script quiet_hw = []
   \<and> trace (snd (ev3dev_Speaker_play_notes open_speaker [MP_str ''C4/4''] 120 quiet_hw))
       = [SetBeep 523, Delay 437, SetBeep 0, Delay 62, SetBeep 0]
   \<and> trace (snd (ev3dev_Speaker_play_notes open_speaker [MP_str ''C4/1''] 120 quiet_hw))
       = [SetBeep 523, Delay 1750, SetBeep 0, Delay 250, SetBeep 0]"
proof -
  have h: "delay_script quiet_hw = []"
    by (simp add: quiet_hw_def)
  show ?thesis
    using h note_timing_at_tempo_120 [OF h, of open_speaker] by (simp add: quiet_hw_def)
qed

section \<open>The note scanner: auxiliary facts\<close>

lemma chr_at_append_right: "chr_at (p @ rest) (length p + k) = chr_at rest k"
  by (simp add: chr_at_def nth_append)

lemma chr_at_append_right0: "chr_at (p @ rest) (length p) = chr_at rest 0"
  using chr_at_append_right [of p rest 0] by simp

lemma chr_at_append_Suc: "chr_at (p @ rest) (Suc (length p)) = chr_at rest 1"
  using chr_at_append_right [of p rest 1] by simp

lemma chr_at_Cons_Suc: "chr_at (c # rest) (Suc k) = chr_at rest k"
  by (simp add: chr_at_def)

lemma chr_at_Cons_0: "chr_at (c # rest) 0 = c"
  by (simp add: chr_at_def)

lemma name_scanned:
  assumes "(p, f) \<in> set pitch_table"
    and "length p = 1 \<longrightarrow> chr_at rest 0 \<noteq> CHR ''#'' \<and> chr_at rest 0 \<noteq> CHR ''b''"
  shows "note_name (p @ rest) = Inr (f, length p) \<and> f \<noteq> 0"
  using assms
  by (auto simp: pitch_table_def note_name_def chr_at_Cons_0 chr_at_Cons_Suc One_nat_def)


lemma of_char_eq_iff: "(of_char c :: int) = of_char c' \<longleftrightarrow> c = c'"
  using inj_of_char [where ?'a = int] by (auto dest: injD)

lemma digit_of_digits:
  assumes "0 \<le> digit_of c" and "digit_of c \<le> 9"
  shows "c \<in> set ''0123456789''"
proof -
  have "of_char c = (48::int) \<or> of_char c = (49::int) \<or> of_char c = (50::int) \<or> of_char c = (51::int)
      \<or> of_char c = (52::int) \<or> of_char c = (53::int) \<or> of_char c = (54::int) \<or> of_char c = (55::int)
      \<or> of_char c = (56::int) \<or> of_char c = (57::int)"
    using assms unfolding digit_of_def by arith
  then have "(of_char c :: int) = of_char CHR ''0'' \<or> (of_char c :: int) = of_char CHR ''1''
      \<or> (of_char c :: int) = of_char CHR ''2'' \<or> (of_char c :: int) = of_char CHR ''3''
      \<or> (of_char c :: int) = of_char CHR ''4'' \<or> (of_char c :: int) = of_char CHR ''5''
      \<or> (of_char c :: int) = of_char CHR ''6'' \<or> (of_char c :: int) = of_char CHR ''7''
      \<or> (of_char c :: int) = of_char CHR ''8'' \<or> (of_char c :: int) = of_char CHR ''9''"
    by simp
  then show ?thesis
    unfolding of_char_eq_iff by simp
qed

lemma digit_of_values:
  "digit_of CHR ''0'' = 0" "digit_of CHR ''1'' = 1" "digit_of CHR ''2'' = 2" "digit_of CHR ''3'' = 3"
  "digit_of CHR ''4'' = 4" "digit_of CHR ''5'' = 5" "digit_of CHR ''6'' = 6" "digit_of CHR ''7'' = 7"
  "digit_of CHR ''8'' = 8" "digit_of CHR ''9'' = 9"
  by (simp_all add: digit_of_def)

lemma octave_digit_iff: "(2 \<le> digit_of c \<and> digit_of c \<le> 8) = (c \<in> set ''2345678'')"
proof
  assume a: "2 \<le> digit_of c \<and> digit_of c \<le> 8"
  then have "c \<in> set ''0123456789''"
    by (intro digit_of_digits) simp_all
  with a show "c \<in> set ''2345678''"
    by (auto simp: digit_of_values)
next
  assume "c \<in> set ''2345678''"
  then show "2 \<le> digit_of c \<and> digit_of c \<le> 8"
    by (auto simp: digit_of_values)
qed

lemma fraction_digit_iff: "(0 \<le> digit_of c \<and> digit_of c \<le> 9) = (c \<in> set ''0123456789'')"
  using digit_of_digits [of c] by (auto simp: digit_of_values)

lemma octave_scanned:
  assumes "f \<noteq> 0" and "c \<in> set ''2345678''"
  shows "note_octave (p @ c # rest) f (length p) = Inr (f * 2 ^ (nat (digit_of c) + 1), length (p @ [c]))"
  using assms
  by (auto simp: note_octave_def chr_at_append_right0 chr_at_Cons_0 digit_of_values push_bit_eq_mult)

lemma octave_missing:
  assumes "f \<noteq> 0" and "chr_at rest 0 \<notin> set ''2345678''"
  shows "note_octave (p @ rest) f (length p) = Inl (Raised (ValueError ''Missing octave number 2-8''))"
proof -
  have "digit_of (chr_at rest 0) < 2 \<or> digit_of (chr_at rest 0) > 8"
    using assms(2) octave_digit_iff [of "chr_at rest 0"] by linarith
  then show ?thesis
    using assms(1) by (simp add: note_octave_def chr_at_append_right0 Let_def)
qed


lemma head_scanned:
  assumes "h \<in> set note_heads"
  shows "\<exists>f0 pos0 f. note_name (h @ rest) = Inr (f0, pos0) \<and>
           note_octave (h @ rest) f0 pos0 = Inr (f, length h)"
proof (cases "h = ''R''")
  case True
  then show ?thesis
    by (simp add: note_name_def note_octave_def chr_at_Cons_0)
next
  case False
  then obtain p f c where pf: "(p, f) \<in> set pitch_table" and c: "c \<in> set ''2345678''"
    and h: "h = p @ [c]"
    using assms by (auto simp: note_heads_def)
  have "chr_at (c # rest) 0 \<noteq> CHR ''#'' \<and> chr_at (c # rest) 0 \<noteq> CHR ''b''"
    using c by (auto simp: chr_at_Cons_0)
  then have n: "note_name (p @ c # rest) = Inr (f, length p)" and f: "f \<noteq> 0"
    using name_scanned [OF pf, of "c # rest"] by simp_all
  show ?thesis
    using n octave_scanned [OF f c, of p rest] h by simp
qed

lemma scan_note_failure_leaves_world:
  "scan_note note d = Inl e \<Longrightarrow> ev3dev_Speaker_play_note self (MP_str note) d w = (Inl e, w)"
  by (simp add: ev3dev_Speaker_play_note_def mp_obj_str_get_str_def)

lemma missing_name:
  assumes "chr_at note 0 \<notin> set ''ABCDEFGR''"
  shows "scan_note note d = Inl (Raised (ValueError ''Missing note name A-G or R''))"
  using assms by (simp add: scan_note_def note_name_def)

lemma refused_spelling:
  assumes "p \<in> set refused_spellings"
  shows "scan_note (p @ rest) d = Inl (Raised (ValueError (quoted p @ '' is not allowed'')))"
  using assms
  by (auto simp: refused_spellings_def scan_note_def note_name_def chr_at_Cons_0 chr_at_Cons_Suc One_nat_def)

lemma missing_octave:
  assumes "(p, f) \<in> set pitch_table" and "chr_at rest 0 \<notin> set ''2345678''"
    and "length p = 1 \<longrightarrow> chr_at rest 0 \<noteq> CHR ''#'' \<and> chr_at rest 0 \<noteq> CHR ''b''"
  shows "scan_note (p @ rest) d = Inl (Raised (ValueError ''Missing octave number 2-8''))"
  using name_scanned [OF assms(1,3)] octave_missing [OF _ assms(2), of f p]
  by (simp add: scan_note_def)

lemma missing_slash:
  assumes "h \<in> set note_heads" and "chr_at rest 0 \<noteq> CHR ''/''"
  shows "scan_note (h @ rest) d = Inl (Raised (ValueError (''Missing '' @ quoted ''/'')))"
proof -
  obtain f0 pos0 f where "note_name (h @ rest) = Inr (f0, pos0)"
    "note_octave (h @ rest) f0 pos0 = Inr (f, length h)"
    using head_scanned [OF assms(1), of rest] by blast
  then show ?thesis
    using assms(2) by (simp add: scan_note_def note_slash_def chr_at_append_right0)
qed

lemma missing_fraction:
  assumes "h \<in> set note_heads" and "chr_at rest 0 \<notin> set ''0123456789''"
  shows "scan_note (h @ CHR ''/'' # rest) d
           = Inl (Raised (ValueError ''Missing fractional value 1, 2, 4, 8, etc.''))"
proof -
  obtain f0 pos0 f where "note_name (h @ CHR ''/'' # rest) = Inr (f0, pos0)"
    "note_octave (h @ CHR ''/'' # rest) f0 pos0 = Inr (f, length h)"
    using head_scanned [OF assms(1), of "CHR ''/'' # rest"] by blast
  moreover have "digit_of (chr_at rest 0) < 0 \<or> digit_of (chr_at rest 0) > 9"
    using assms(2) fraction_digit_iff [of "chr_at rest 0"] by linarith
  ultimately show ?thesis
    by (simp add: scan_note_def note_slash_def note_fraction_def chr_at_append_right0
        chr_at_append_Suc chr_at_Cons_0 chr_at_Cons_Suc Let_def)
qed

lemma nonzero_fraction_scans:
  assumes "h \<in> set note_heads" and "c \<in> set ''123456789''"
  shows "\<exists>s. scan_note (h @ CHR ''/'' # c # rest) d = Inr s"
proof -
  obtain f0 pos0 f where "note_name (h @ CHR ''/'' # c # rest) = Inr (f0, pos0)"
    "note_octave (h @ CHR ''/'' # c # rest) f0 pos0 = Inr (f, length h)"
    using head_scanned [OF assms(1), of "CHR ''/'' # c # rest"] by blast
  moreover have "0 < digit_of c \<and> digit_of c \<le> 9"
    using assms(2) by (auto simp: digit_of_values)
  moreover have "0 \<le> digit_of c'" if "\<not> (digit_of c' < 0 \<or> 9 < digit_of c')" for c'
    using that by simp
  ultimately show ?thesis
    by (auto simp: scan_note_def note_slash_def note_fraction_def note_decorations_def
        chr_at_append_right0 chr_at_append_Suc chr_at_Cons_0 chr_at_Cons_Suc Let_def)
qed

lemma scan_note_frequency:
  assumes "(p, f) \<in> set pitch_table" and "c \<in> set ''2345678''"
    and "scan_note (p @ c # rest) d = Inr s"
  shows "s_freq s = f * 2 ^ (nat (digit_of c) + 1)"
proof -
  have "chr_at (c # rest) 0 \<noteq> CHR ''#'' \<and> chr_at (c # rest) 0 \<noteq> CHR ''b''"
    using assms(2) by (auto simp: chr_at_Cons_0)
  then have n: "note_name (p @ c # rest) = Inr (f, length p)" and f: "f \<noteq> 0"
    using name_scanned [OF assms(1), of "c # rest"] by simp_all
  show ?thesis
    using assms(3) n octave_scanned [OF f assms(2), of p rest]
    by (auto simp: scan_note_def note_decorations_def Let_def split: sum.splits if_splits)
qed

lemma note_octave_suffix:
  assumes "\<forall>k\<ge>n. chr_at a k = chr_at b k" and "n \<le> pos"
  shows "note_octave a f pos = note_octave b f pos"
  using assms by (simp add: note_octave_def)

lemma note_octave_pos: "note_octave a f pos = Inr (f', pos') \<Longrightarrow> pos \<le> pos'"
  by (auto simp: note_octave_def Let_def split: if_splits)

lemma note_slash_suffix:
  assumes "\<forall>k\<ge>n. chr_at a k = chr_at b k" and "n \<le> pos"
  shows "note_slash a pos = note_slash b pos"
  using assms by (simp add: note_slash_def)

lemma note_slash_pos: "note_slash a pos = Inr pos' \<Longrightarrow> pos \<le> pos'"
  by (auto simp: note_slash_def split: if_splits)

lemma note_fraction_suffix:
  assumes "\<forall>k\<ge>n. chr_at a k = chr_at b k" and "n \<le> pos"
  shows "note_fraction a pos = note_fraction b pos"
proof -
  have "chr_at a pos = chr_at b pos" "chr_at a (pos + 1) = chr_at b (pos + 1)"
    using assms by simp_all
  then show ?thesis
    by (simp add: note_fraction_def Let_def)
qed

lemma note_fraction_pos: "note_fraction a pos = Inr (fr, pos') \<Longrightarrow> pos \<le> pos'"
  by (auto simp: note_fraction_def Let_def split: if_splits)

lemma note_decorations_suffix:
  assumes "\<forall>k\<ge>n. chr_at a k = chr_at b k" and "n \<le> pos"
  shows "note_decorations a f d fr pos = note_decorations b f d fr pos"
proof -
  have "chr_at a pos = chr_at b pos" "chr_at a (pos + 1) = chr_at b (pos + 1)"
    using assms by simp_all
  then show ?thesis
    by (auto simp: note_decorations_def Let_def)
qed

lemma scan_note_suffix:
  assumes ag: "\<forall>k\<ge>n. chr_at a k = chr_at b k"
    and na: "note_name a = Inr (f, pos)" and nb: "note_name b = Inr (f, pos)" and n: "n \<le> pos"
  shows "scan_note a d = scan_note b d"
proof (cases "note_octave a f pos")
  case (Inl e)
  then show ?thesis
    using note_octave_suffix [OF ag n, of f] na nb by (simp add: scan_note_def)
next
  case (Inr r1)
  obtain f1 pos1 where r1: "r1 = (f1, pos1)" by (cases r1)
  have o: "note_octave a f pos = Inr (f1, pos1)" "note_octave b f pos = Inr (f1, pos1)"
    using Inr r1 note_octave_suffix [OF ag n, of f] by simp_all
  have n1: "n \<le> pos1"
    using note_octave_pos [OF o(1)] n by simp
  show ?thesis
  proof (cases "note_slash a pos1")
    case (Inl e)
    then show ?thesis
      using note_slash_suffix [OF ag n1] na nb o by (simp add: scan_note_def)
  next
    case (Inr pos2)
    have s: "note_slash b pos1 = Inr pos2"
      using Inr note_slash_suffix [OF ag n1] by simp
    have n2: "n \<le> pos2"
      using note_slash_pos [OF Inr] n1 by simp
    show ?thesis
    proof (cases "note_fraction a pos2")
      case (Inl e)
      then show ?thesis
        using note_fraction_suffix [OF ag n2] na nb o Inr s by (simp add: scan_note_def)
    next
      case (Inr r3)
      obtain fr pos3 where r3: "r3 = (fr, pos3)" by (cases r3)
      have fa: "note_fraction a pos2 = Inr (fr, pos3)" "note_fraction b pos2 = Inr (fr, pos3)"
        using Inr r3 note_fraction_suffix [OF ag n2] by simp_all
      have n3: "n \<le> pos3"
        using note_fraction_pos [OF fa(1)] n2 by simp
      show ?thesis
        using note_decorations_suffix [OF ag n3, of f1 d fr] na nb o \<open>note_slash a pos1 = Inr pos2\<close> s fa
        by (simp add: scan_note_def)
    qed
  qed
qed

lemma agree_after_two: "\<forall>k\<ge>2. chr_at (x # y # rest) k = chr_at (x' # y' # rest) k"
  by (auto simp: chr_at_def nth_Cons split: nat.splits)

lemma enharmonic_spellings_agree:
  "scan_note (''C#'' @ rest) d = scan_note (''Db'' @ rest) d"
  "scan_note (''D#'' @ rest) d = scan_note (''Eb'' @ rest) d"
  "scan_note (''F#'' @ rest) d = scan_note (''Gb'' @ rest) d"
  "scan_note (''G#'' @ rest) d = scan_note (''Ab'' @ rest) d"
  "scan_note (''A#'' @ rest) d = scan_note (''Bb'' @ rest) d"
proof -
  have "scan_note (CHR ''C'' # CHR ''#'' # rest) d = scan_note (CHR ''D'' # CHR ''b'' # rest) d"
    by (rule scan_note_suffix [OF agree_after_two _ _ order_refl, where f = "17.32"])
       (simp_all add: note_name_def chr_at_Cons_0 chr_at_Cons_Suc One_nat_def)
  then show "scan_note (''C#'' @ rest) d = scan_note (''Db'' @ rest) d" by simp
  have "scan_note (CHR ''D'' # CHR ''#'' # rest) d = scan_note (CHR ''E'' # CHR ''b'' # rest) d"
    by (rule scan_note_suffix [OF agree_after_two _ _ order_refl, where f = "19.45"])
       (simp_all add: note_name_def chr_at_Cons_0 chr_at_Cons_Suc One_nat_def)
  then show "scan_note (''D#'' @ rest) d = scan_note (''Eb'' @ rest) d" by simp
  have "scan_note (CHR ''F'' # CHR ''#'' # rest) d = scan_note (CHR ''G'' # CHR ''b'' # rest) d"
    by (rule scan_note_suffix [OF agree_after_two _ _ order_refl, where f = "23.12"])
       (simp_all add: note_name_def chr_at_Cons_0 chr_at_Cons_Suc One_nat_def)
  then show "scan_note (''F#'' @ rest) d = scan_note (''Gb'' @ rest) d" by simp
  have "scan_note (CHR ''G'' # CHR ''#'' # rest) d = scan_note (CHR ''A'' # CHR ''b'' # rest) d"
    by (rule scan_note_suffix [OF agree_after_two _ _ order_refl, where f = "25.96"])
       (simp_all add: note_name_def chr_at_Cons_0 chr_at_Cons_Suc One_nat_def)
  then show "scan_note (''G#'' @ rest) d = scan_note (''Ab'' @ rest) d" by simp
  have "scan_note (CHR ''A'' # CHR ''#'' # rest) d = scan_note (CHR ''B'' # CHR ''b'' # rest) d"
    by (rule scan_note_suffix [OF agree_after_two _ _ order_refl, where f = "29.14"])
       (simp_all add: note_name_def chr_at_Cons_0 chr_at_Cons_Suc One_nat_def)
  then show "scan_note (''A#'' @ rest) d = scan_note (''Bb'' @ rest) d" by simp
qed

section \<open>Octaves\<close>

text \<open>
  Claim C2. The code gives the token \<^verbatim>\<open>A4/4\<close> the frequency 27.50 * 2 ^ 5 = 880 and sends
  880 to the device; the frequency of octave 0 doubled once for each of the 4 octave
  steps is 27.50 * 2 ^ 4 = 440.
\<close>

theorem A4_is_scanned_as_880:
  "scan_note ''A4/4'' 2000 = Inr \<lparr>s_freq = 27.50 * 2 ^ 5, s_duration = 500, s_release = True, s_pos = 4\<rparr>
   \<and> map_of pitch_table ''A'' = Some 27.50
   \<and> (27.50 * 2 ^ 5 :: rat) \<noteq> 27.50 * 2 ^ 4
   \<and> trace (snd (ev3dev_Speaker_play_notes open_speaker [MP_str ''A4/4''] 120 quiet_hw))
       = [SetBeep 880, Delay 437, SetBeep 0, Delay 62, SetBeep 0]"
proof -
  have "scan_note ''A4/4'' 2000 = Inr \<lparr>s_freq = 27.50 * 2 ^ 5, s_duration = 500, s_release = True, s_pos = 4\<rparr>"
    by (simp add: scan_note_def note_name_def note_octave_def note_slash_def note_fraction_def
        note_decorations_def chr_at_def digit_of_def signed_divide_int_def)
  moreover have "map_of pitch_table ''A'' = Some 27.50"
    by (simp add: pitch_table_def)
  moreover have "trace (snd (ev3dev_Speaker_play_notes open_speaker [MP_str ''A4/4''] 120 quiet_hw))
       = [SetBeep 880, Delay 437, SetBeep 0, Delay 62, SetBeep 0]"
    by code_simp
  ultimately show ?thesis
    by simp
qed

section \<open>Malformed note tokens\<close>

text \<open>
  Claim C3, as the claim states it, fails: the token \<^verbatim>\<open>C4/4xyz\<close>, a complete note followed by
  three more characters, is played without any error.
\<close>

theorem leftover_characters_are_accepted:
  "ev3dev_Speaker_play_notes open_speaker [MP_str ''C4/4xyz''] 120 quiet_hw
     = ev3dev_Speaker_play_notes open_speaker [MP_str ''C4/4''] 120 quiet_hw
   \<and> fst (ev3dev_Speaker_play_notes open_speaker [MP_str ''C4/4xyz''] 120 quiet_hw) = Inr ()"
  by code_simp

text \<open>
  Claim C3, amended. A token fails with a \<^verbatim>\<open>ValueError\<close> that names the reason, before
  anything is sent to the device, when it does not start with one of \<^verbatim>\<open>A\<close> to \<^verbatim>\<open>G\<close> or \<^verbatim>\<open>R\<close>;
  when it starts with \<^verbatim>\<open>Cb\<close>, \<^verbatim>\<open>E#\<close>, \<^verbatim>\<open>Fb\<close> or \<^verbatim>\<open>B#\<close>; when its note name is not followed by
  an octave digit from 2 to 8; when its head is not followed by \<^verbatim>\<open>/\<close>; and when the \<^verbatim>\<open>/\<close> is
  not followed by a decimal digit. When the \<^verbatim>\<open>/\<close> is followed by a digit from 1 to 9 the
  scan succeeds whatever characters come after the note, so the duration is never
  divided by zero there.
\<close>

theorem malformed_tokens:
  "(chr_at note 0 \<notin> set ''ABCDEFGR'' \<longrightarrow>
      scan_note note d = Inl (Raised (ValueError ''Missing note name A-G or R'')))
   \<and> (p \<in> set refused_spellings \<longrightarrow>
      scan_note (p @ rest) d = Inl (Raised (ValueError (quoted p @ '' is not allowed''))))
   \<and> ((q, f) \<in> set pitch_table \<and> chr_at rest 0 \<notin> set ''2345678'' \<and>
       (length q = 1 \<longrightarrow> chr_at rest 0 \<noteq> CHR ''#'' \<and> chr_at rest 0 \<noteq> CHR ''b'') \<longrightarrow>
      scan_note (q @ rest) d = Inl (Raised (ValueError ''Missing octave number 2-8'')))
   \<and> (h \<in> set note_heads \<and> chr_at rest 0 \<noteq> CHR ''/'' \<longrightarrow>
      scan_note (h @ rest) d = Inl (Raised (ValueError (''Missing '' @ quoted ''/''))))
   \<and> (h \<in> set note_heads \<and> chr_at rest 0 \<notin> set ''0123456789'' \<longrightarrow>
      scan_note (h @ CHR ''/'' # rest) d
        = Inl (Raised (ValueError ''Missing fractional value 1, 2, 4, 8, etc.'')))
   \<and> (h \<in> set note_heads \<and> c \<in> set ''123456789'' \<longrightarrow>
      (\<exists>s. scan_note (h @ CHR ''/'' # c # rest) d = Inr s))
   \<and> (scan_note note d = Inl e \<longrightarrow>
      ev3dev_Speaker_play_note self (MP_str note) d w = (Inl e, w))"
  using missing_name [of "note" d] refused_spelling [of p rest d] missing_octave [of q f rest d]
    missing_slash [of h rest d] missing_fraction [of h rest d] nonzero_fraction_scans [of h c rest d]
    scan_note_failure_leaves_world [of "note" d e self w]
  by blast

theorem malformed_tokens_witness:
  "scan_note ''H4/4'' 2000 = Inl (Raised (ValueError ''Missing note name A-G or R''))
   \<and> scan_note ''Cb4/4'' 2000 = Inl (Raised (ValueError (quoted ''Cb'' @ '' is not allowed'')))
   \<and> scan_note ''C9/4'' 2000 = Inl (Raised (ValueError ''Missing octave number 2-8''))
   \<and> scan_note ''C4-4'' 2000 = Inl (Raised (ValueError (''Missing '' @ quoted ''/'')))
   \<and> scan_note ''C4/x'' 2000 = Inl (Raised (ValueError ''Missing fractional value 1, 2, 4, 8, etc.''))
   \<and> (\<exists>s. scan_note ''C4/4xyz'' 2000 = Inr s)
   \<and> ev3dev_Speaker_play_note open_speaker (MP_str ''H4/4'') 2000 quiet_hw
        = (Inl (Raised (ValueError ''Missing note name A-G or R'')), quiet_hw)"
proof -
  have hd: "''C4'' \<in> set note_heads"
    by (simp add: note_heads_def pitch_table_def)
  have a: "scan_note ''H4/4'' 2000 = Inl (Raised (ValueError ''Missing note name A-G or R''))"
    using malformed_tokens [of "''H4/4''" 2000] by (simp add: chr_at_def)
  have b: "scan_note ''Cb4/4'' 2000 = Inl (Raised (ValueError (quoted ''Cb'' @ '' is not allowed'')))"
    using malformed_tokens [of _ 2000 "''Cb''" "''4/4''"] by (simp add: refused_spellings_def)
  have c: "scan_note ''C9/4'' 2000 = Inl (Raised (ValueError ''Missing octave number 2-8''))"
    using malformed_tokens [of _ 2000 _ "''9/4''" "''C''" "16.35"]
    by (simp add: pitch_table_def chr_at_def)
  have d: "scan_note ''C4-4'' 2000 = Inl (Raised (ValueError (''Missing '' @ quoted ''/'')))"
    using hd malformed_tokens [of _ 2000 _ "''-4''" _ _ "''C4''"] by (simp add: chr_at_def)
  have e: "scan_note ''C4/x'' 2000 = Inl (Raised (ValueError ''Missing fractional value 1, 2, 4, 8, etc.''))"
    using hd malformed_tokens [of _ 2000 _ "''x''" _ _ "''C4''"] by (simp add: chr_at_def)
  have f: "\<exists>s. scan_note ''C4/4xyz'' 2000 = Inr s"
    using hd malformed_tokens [of _ 2000 _ "''xyz''" _ _ "''C4''" "CHR ''4''"] by simp
  have g: "ev3dev_Speaker_play_note open_speaker (MP_str ''H4/4'') 2000 quiet_hw
        = (Inl (Raised (ValueError ''Missing note name A-G or R'')), quiet_hw)"
    using a malformed_tokens [of "''H4/4''" 2000 _ _ _ _ _ _ _ open_speaker quiet_hw] by simp
  show ?thesis
    using a b c d e f g by simp
qed

text \<open>
  A fraction that starts with the digit 0 passes the test of line 248, and line 261
  divides by it.
\<close>

lemma zero_fraction_divides_by_zero:
  "scan_note ''C2/0'' 2000 = Inl (Undefined ''duration /= fraction: division by zero'')"
  by (simp add: scan_note_def note_name_def note_octave_def note_slash_def note_fraction_def
      note_decorations_def chr_at_def digit_of_def)

section \<open>The process pipeline: auxiliary facts\<close>

lemma dispatch_busy:
  "aplay_busy (dispatch s c) = (aplay_busy s \<and> \<not> is_aplay_exit c)"
  "espeak_busy (dispatch s c) = (espeak_busy s \<and> \<not> is_espeak_exit c)"
  "splice_busy (dispatch s c) = (splice_busy s \<and> \<not> is_splice_end c)"
  by (cases c; simp add: ev3dev_Speaker_aplay_callback_def ev3dev_Speaker_espeak_callback_def
        ev3dev_Speaker_splice_callback_def)+

lemma foldl_dispatch_busy:
  "aplay_busy (foldl dispatch s cs) = (aplay_busy s \<and> \<not> list_ex is_aplay_exit cs)"
  "espeak_busy (foldl dispatch s cs) = (espeak_busy s \<and> \<not> list_ex is_espeak_exit cs)"
  "splice_busy (foldl dispatch s cs) = (splice_busy s \<and> \<not> list_ex is_splice_end cs)"
  by (induction cs arbitrary: s; auto simp: dispatch_busy)+

lemma delivered_Cons: "delivered (p # ps) = poll_completions p @ delivered ps"
  by (simp add: delivered_def)

lemma say_wait_Some:
  assumes "say_wait ps s g x = Some (s', g', x')"
  shows "\<exists>dn. dn \<noteq> [] \<and> ps = dn @ polls g' \<and> s' = foldl dispatch s (delivered dn)
          \<and> glog g' = glog g @ concat (map (poll_glog [Espeak, Aplay]) dn)
          \<and> x' = (case last_interrupt dn of None \<Rightarrow> x | Some e \<Rightarrow> Some e)
          \<and> spawn_fails g' = spawn_fails g \<and> stderr_pipe g' = stderr_pipe g
          \<and> \<not> espeak_busy s' \<and> \<not> aplay_busy s' \<and> \<not> splice_busy s'"
  using assms
proof (induction ps arbitrary: s g x)
  case Nil
  then show ?case by simp
next
  case (Cons p ps)
  let ?s1 = "foldl dispatch s (poll_completions p)"
  let ?g1 = "g\<lparr>glog := glog g @ poll_glog [Espeak, Aplay] p\<rparr>"
  let ?x1 = "case poll_exn p of None \<Rightarrow> x | Some e \<Rightarrow> Some e"
  show ?case
  proof (cases "espeak_busy ?s1 \<or> aplay_busy ?s1 \<or> splice_busy ?s1")
    case True
    have "say_wait ps ?s1 ?g1 ?x1 = Some (s', g', x')"
      using Cons.prems True
      by (cases p; cases "poll_exn p") (auto simp: event_poll_hook_def poll_glog_def)
    from Cons.IH [OF this] obtain dn where dn: "dn \<noteq> []" "ps = dn @ polls g'"
      "s' = foldl dispatch ?s1 (delivered dn)"
      "glog g' = glog ?g1 @ concat (map (poll_glog [Espeak, Aplay]) dn)"
      "x' = (case last_interrupt dn of None \<Rightarrow> ?x1 | Some e \<Rightarrow> Some e)"
      "spawn_fails g' = spawn_fails ?g1" "stderr_pipe g' = stderr_pipe ?g1"
      "\<not> espeak_busy s'" "\<not> aplay_busy s'" "\<not> splice_busy s'"
      by blast
    have "x' = (case last_interrupt (p # dn) of None \<Rightarrow> x | Some e \<Rightarrow> Some e)"
      using dn(5) by (simp split: option.splits)
    then show ?thesis
      using dn by (intro exI [of _ "p # dn"]) (simp add: delivered_Cons)
  next
    case False
    have "s' = ?s1 \<and> g' = ?g1\<lparr>polls := ps\<rparr> \<and> x' = ?x1"
      using Cons.prems False
      by (cases p; cases "poll_exn p") (auto simp: event_poll_hook_def poll_glog_def)
    then show ?thesis
      using False
      by (intro exI [of _ "[p]"]) (simp add: delivered_def split: option.splits)
  qed
qed


lemma play_file_wait_Some:
  assumes "play_file_wait ps s g x = Some (s', g', x')"
  shows "\<exists>dn. dn \<noteq> [] \<and> ps = dn @ polls g' \<and> s' = foldl dispatch s (delivered dn)
          \<and> glog g' = glog g @ concat (map (poll_glog [Aplay]) dn)
          \<and> x' = (case last_interrupt dn of None \<Rightarrow> x | Some e \<Rightarrow> Some e)
          \<and> spawn_fails g' = spawn_fails g \<and> stderr_pipe g' = stderr_pipe g
          \<and> \<not> aplay_busy s'"
  using assms
proof (induction ps arbitrary: s g x)
  case Nil
  then show ?case by simp
next
  case (Cons p ps)
  let ?s1 = "foldl dispatch s (poll_completions p)"
  let ?g1 = "g\<lparr>glog := glog g @ poll_glog [Aplay] p\<rparr>"
  let ?x1 = "case poll_exn p of None \<Rightarrow> x | Some e \<Rightarrow> Some e"
  show ?case
  proof (cases "aplay_busy ?s1")
    case True
    have "play_file_wait ps ?s1 ?g1 ?x1 = Some (s', g', x')"
      using Cons.prems True
      by (cases p; cases "poll_exn p") (auto simp: event_poll_hook_def poll_glog_def)
    from Cons.IH [OF this] obtain dn where dn: "dn \<noteq> []" "ps = dn @ polls g'"
      "s' = foldl dispatch ?s1 (delivered dn)"
      "glog g' = glog ?g1 @ concat (map (poll_glog [Aplay]) dn)"
      "x' = (case last_interrupt dn of None \<Rightarrow> ?x1 | Some e \<Rightarrow> Some e)"
      "spawn_fails g' = spawn_fails ?g1" "stderr_pipe g' = stderr_pipe ?g1"
      "\<not> aplay_busy s'"
      by blast
    have "x' = (case last_interrupt (p # dn) of None \<Rightarrow> x | Some e \<Rightarrow> Some e)"
      using dn(5) by (simp split: option.splits)
    then show ?thesis
      using dn by (intro exI [of _ "p # dn"]) (simp add: delivered_Cons)
  next
    case False
    have "s' = ?s1 \<and> g' = ?g1\<lparr>polls := ps\<rparr> \<and> x' = ?x1"
      using Cons.prems False
      by (cases p; cases "poll_exn p") (auto simp: event_poll_hook_def poll_glog_def)
    then show ?thesis
      using False
      by (intro exI [of _ "[p]"]) (simp add: delivered_def split: option.splits)
  qed
qed

lemma polls_run_eq: "polls g = dn @ polls g' \<Longrightarrow> polls_run g g' = dn"
  by (simp add: polls_run_def)





lemma never_interrupted_last: "never_interrupted ps = (last_interrupt ps = None)"
  by (induction ps) (auto simp: never_interrupted_def split: option.splits)




lemma play_file_Some:
  assumes "ev3dev_Speaker_play_file self (MP_str path) g = Some (r, self', g')"
    and "spawn_fails g Aplay = None"
  shows "\<exists>gl. r = fst (play_file_finish (last_interrupt (polls_run g g')) self' gl)
           \<and> g' = snd (play_file_finish (last_interrupt (polls_run g g')) self' gl)
           \<and> glog gl = glog g @ [Spawned Aplay, Wait_async Aplay] @ concat (map (poll_glog [Aplay]) (polls_run g g'))
           \<and> stderr_pipe gl = stderr_pipe g
           \<and> self' = foldl dispatch (self\<lparr>aplay_busy := True\<rparr>) (delivered (polls_run g g'))
           \<and> \<not> aplay_busy self'
           \<and> polls g = polls_run g g' @ polls g'"
proof -
  let ?g1 = "g\<lparr>glog := glog g @ [Spawned Aplay, Wait_async Aplay]\<rparr>"
  obtain gl exc where w: "play_file_wait (polls g) (self\<lparr>aplay_busy := True\<rparr>) ?g1 None = Some (self', gl, exc)"
    and r: "r = fst (play_file_finish exc self' gl)" and g': "g' = snd (play_file_finish exc self' gl)"
    using assms
    by (auto simp: ev3dev_Speaker_play_file_def mp_obj_str_get_str_def split: option.splits)
  obtain dn where dn: "polls g = dn @ polls gl"
      "self' = foldl dispatch (self\<lparr>aplay_busy := True\<rparr>) (delivered dn)"
      "glog gl = glog ?g1 @ concat (map (poll_glog [Aplay]) dn)"
      "exc = (case last_interrupt dn of None \<Rightarrow> None | Some e \<Rightarrow> Some e)"
      "stderr_pipe gl = stderr_pipe ?g1" "\<not> aplay_busy self'"
    using play_file_wait_Some [OF w] by blast
  have pg: "polls g' = polls gl"
    unfolding g' by (simp add: play_file_finish_def split: option.splits sum.splits)
  then have run: "polls_run g g' = dn"
    using dn(1) by (simp add: polls_run_eq)
  have whole: "polls g = dn @ polls g'"
    using dn(1) pg by simp
  have exc: "exc = last_interrupt dn"
    using dn(4) by (simp split: option.splits)
  show ?thesis
    using r g' dn(2,3,5,6) whole unfolding run exc by (intro exI [of _ gl]) simp
qed

lemma say_Some:
  assumes "ev3dev_Speaker_say self (MP_str text) g = Some (r, self', g')"
    and "spawn_fails g Espeak = None" and "spawn_fails g Aplay = None"
  shows "\<exists>gl. r = fst (say_finish (last_interrupt (polls_run g g')) self' gl)
           \<and> g' = snd (say_finish (last_interrupt (polls_run g g')) self' gl)
           \<and> glog gl = glog g @ [Spawned Espeak, Spawned Aplay, Wait_async Espeak, Wait_async Aplay, Splice_async]
                @ concat (map (poll_glog [Espeak, Aplay]) (polls_run g g'))
           \<and> stderr_pipe gl = stderr_pipe g
           \<and> self' = foldl dispatch (self\<lparr>espeak_busy := True, aplay_busy := True, splice_busy := True\<rparr>)
                (delivered (polls_run g g'))
           \<and> \<not> espeak_busy self' \<and> \<not> aplay_busy self' \<and> \<not> splice_busy self'
           \<and> polls g = polls_run g g' @ polls g'"
proof -
  let ?s1 = "self\<lparr>espeak_busy := True, aplay_busy := True, splice_busy := True\<rparr>"
  let ?g1 = "g\<lparr>glog := glog g @ [Spawned Espeak, Spawned Aplay, Wait_async Espeak, Wait_async Aplay, Splice_async]\<rparr>"
  obtain gl exc where w: "say_wait (polls g) ?s1 ?g1 None = Some (self', gl, exc)"
    and r: "r = fst (say_finish exc self' gl)" and g': "g' = snd (say_finish exc self' gl)"
    using assms
    by (auto simp: ev3dev_Speaker_say_def mp_obj_str_get_str_def split: option.splits)
  obtain dn where dn: "polls g = dn @ polls gl"
      "self' = foldl dispatch ?s1 (delivered dn)"
      "glog gl = glog ?g1 @ concat (map (poll_glog [Espeak, Aplay]) dn)"
      "exc = (case last_interrupt dn of None \<Rightarrow> None | Some e \<Rightarrow> Some e)"
      "stderr_pipe gl = stderr_pipe ?g1" "\<not> espeak_busy self'" "\<not> aplay_busy self'" "\<not> splice_busy self'"
    using say_wait_Some [OF w] by blast
  have pg: "polls g' = polls gl"
    unfolding g' by (simp add: say_finish_def split: option.splits sum.splits)
  then have run: "polls_run g g' = dn"
    using dn(1) by (simp add: polls_run_eq)
  have whole: "polls g = dn @ polls g'"
    using dn(1) pg by simp
  have exc: "exc = last_interrupt dn"
    using dn(4) by (simp split: option.splits)
  show ?thesis
    using r g' dn(2,3,5,6,7,8) whole unfolding run exc by (intro exI [of _ gl]) simp
qed








section \<open>Interrupted pipeline calls\<close>



section \<open>Which failure \<^verbatim>\<open>say\<close> reports\<close>

lemma dispatch_outcome:
  "is_aplay_exit c \<Longrightarrow> aplay_result (dispatch s c) = (aplay_error (dispatch s c) = None)"
  "\<not> is_aplay_exit c \<Longrightarrow> aplay_result (dispatch s c) = aplay_result s \<and> aplay_error (dispatch s c) = aplay_error s"
  "is_espeak_exit c \<Longrightarrow> espeak_result (dispatch s c) = (espeak_error (dispatch s c) = None)"
  "\<not> is_espeak_exit c \<Longrightarrow> espeak_result (dispatch s c) = espeak_result s \<and> espeak_error (dispatch s c) = espeak_error s"
  by (cases c; auto simp: ev3dev_Speaker_aplay_callback_def ev3dev_Speaker_espeak_callback_def
        ev3dev_Speaker_splice_callback_def split: wait_check.splits)+

lemma foldl_dispatch_aplay_outcome:
  "aplay_result s = (aplay_error s = None) \<or> list_ex is_aplay_exit cs \<Longrightarrow>
   aplay_result (foldl dispatch s cs) = (aplay_error (foldl dispatch s cs) = None)"
proof (induction cs arbitrary: s)
  case Nil
  then show ?case by simp
next
  case (Cons c cs)
  have "aplay_result (dispatch s c) = (aplay_error (dispatch s c) = None) \<or> list_ex is_aplay_exit cs"
    using Cons.prems dispatch_outcome(1,2) [of c s] by (cases "is_aplay_exit c") auto
  from Cons.IH [OF this] show ?case by simp
qed

lemma foldl_dispatch_espeak_outcome:
  "espeak_result s = (espeak_error s = None) \<or> list_ex is_espeak_exit cs \<Longrightarrow>
   espeak_result (foldl dispatch s cs) = (espeak_error (foldl dispatch s cs) = None)"
proof (induction cs arbitrary: s)
  case Nil
  then show ?case by simp
next
  case (Cons c cs)
  have "espeak_result (dispatch s c) = (espeak_error (dispatch s c) = None) \<or> list_ex is_espeak_exit cs"
    using Cons.prems dispatch_outcome(3,4) [of c s] by (cases "is_espeak_exit c") auto
  from Cons.IH [OF this] show ?case by simp
qed

text \<open>
  When no poll of a \<^verbatim>\<open>say\<close> call was interrupted, the call looks at the outcome of \<^verbatim>\<open>aplay\<close>
  first. If \<^verbatim>\<open>aplay\<close> failed and the read of its standard error gave fewer than 4096 bytes,
  the call raises the failure with the text of \<^verbatim>\<open>aplay\<close> (its standard error if the read
  gave any bytes, the message of its error otherwise), whatever \<^verbatim>\<open>espeak\<close> reported. Only if
  \<^verbatim>\<open>aplay\<close> succeeded and \<^verbatim>\<open>espeak\<close> failed (again with fewer than 4096 bytes) it raises the
  failure with the text of \<^verbatim>\<open>espeak\<close>; if both succeeded it returns.
\<close>

lemma say_reports_aplay_first:
  assumes "ev3dev_Speaker_say self (MP_str text) g = Some (r, self', g')"
    and "spawn_fails g Espeak = None" and "spawn_fails g Aplay = None"
    and "never_interrupted (polls_run g g')"
  shows "(\<not> aplay_result self' \<and> length (snd (stderr_pipe g Aplay)) < 4096 \<longrightarrow>
            (\<exists>message. aplay_error self' = Some message \<and>
               r = Inl (Raised (RuntimeError (''Saying text failed: '' @
                     (if fst (stderr_pipe g Aplay) \<and> snd (stderr_pipe g Aplay) \<noteq> []
                      then c_string (snd (stderr_pipe g Aplay)) else c_string message))))))
       \<and> (aplay_result self' \<and> \<not> espeak_result self' \<and> length (snd (stderr_pipe g Espeak)) < 4096 \<longrightarrow>
            (\<exists>message. espeak_error self' = Some message \<and>
               r = Inl (Raised (RuntimeError (''Saying text failed: '' @
                     (if fst (stderr_pipe g Espeak) \<and> snd (stderr_pipe g Espeak) \<noteq> []
                      then c_string (snd (stderr_pipe g Espeak)) else c_string message))))))
       \<and> (aplay_result self' \<and> espeak_result self' \<longrightarrow> r = Inr ())"
proof -
  let ?s1 = "self\<lparr>espeak_busy := True, aplay_busy := True, splice_busy := True\<rparr>"
  obtain gl where gl: "r = fst (say_finish (last_interrupt (polls_run g g')) self' gl)"
      "stderr_pipe gl = stderr_pipe g"
      "self' = foldl dispatch ?s1 (delivered (polls_run g g'))"
      "\<not> espeak_busy self'" "\<not> aplay_busy self'"
    using say_Some [OF assms(1,2,3)] by blast
  have dl: "list_ex is_espeak_exit (delivered (polls_run g g'))"
    "list_ex is_aplay_exit (delivered (polls_run g g'))"
    using gl(3,4,5) by (simp_all add: foldl_dispatch_busy)
  have oc: "aplay_result self' = (aplay_error self' = None)"
    "espeak_result self' = (espeak_error self' = None)"
    using foldl_dispatch_aplay_outcome [of ?s1 "delivered (polls_run g g')"]
      foldl_dispatch_espeak_outcome [of ?s1 "delivered (polls_run g g')"] dl gl(3)
    by simp_all
  have "last_interrupt (polls_run g g') = None"
    using assms(4) by (simp add: never_interrupted_last)
  then have r: "r = fst (say_finish None self' gl)"
    using gl(1) by simp
  show ?thesis
    using oc unfolding r
    by (auto simp: say_finish_def failure_text_def gl(2) Let_def min_def split: sum.splits)
qed

text \<open>
  Claim C8. Nothing interrupts the call, both processes fail, and \<^verbatim>\<open>aplay\<close> has written 4096
  bytes to its standard error. \<^verbatim>\<open>say\<close> looks at \<^verbatim>\<open>aplay\<close> first, fills \<^verbatim>\<open>stderr_bytes\<close> and stores
  the terminator at index 4096 of the array of 4096 elements (line 504): the call has no
  defined result, where the claim promises that the diagnostic of the playback failure
  is the one raised.
\<close>

theorem say_full_stderr_read_overflows:
  "map_option fst (ev3dev_Speaker_say open_speaker (MP_str ''hello'') flooded_say_gio)
     = Some (Inl (Undefined ''stderr_bytes[4096]: store past the end of the array''))"
  by (simp add: ev3dev_Speaker_say_def mp_obj_str_get_str_def flooded_say_gio_def quiet_gio_def
      event_poll_hook_def ev3dev_Speaker_aplay_callback_def ev3dev_Speaker_espeak_callback_def
      ev3dev_Speaker_splice_callback_def say_finish_def failure_text_def)

text \<open>
  The same call when both processes fail with a short line on standard error: the text
  of \<^verbatim>\<open>aplay\<close> is raised, the failure of \<^verbatim>\<open>espeak\<close> is not.
\<close>

lemma say_both_fail_short_stderr:
  "map_option fst (ev3dev_Speaker_say open_speaker (MP_str ''hello'') failing_say_gio)
     = Some (Inl (Raised (RuntimeError ''Saying text failed: aplay: bad header'')))"
  by code_simp

section \<open>The message of a failed \<^verbatim>\<open>aplay\<close>\<close>

lemma play_file_failure:
  assumes "ev3dev_Speaker_play_file self (MP_str path) g = Some (r, self', g')"
    and "spawn_fails g Aplay = None" and "never_interrupted (polls_run g g')"
    and "\<not> aplay_result self'" and "aplay_error self' = Some message"
  shows "r = (if fst (stderr_pipe g Aplay) \<and> snd (stderr_pipe g Aplay) \<noteq> []
              then if length (snd (stderr_pipe g Aplay)) < 4096
                   then Inl (Raised (RuntimeError (''Playing file failed: '' @ c_string (snd (stderr_pipe g Aplay)))))
                   else Inl (Undefined ''stderr_bytes[4096]: store past the end of the array'')
              else Inl (Raised (RuntimeError (''Playing file failed: '' @ c_string message))))"
proof -
  obtain gl where gl: "r = fst (play_file_finish (last_interrupt (polls_run g g')) self' gl)"
      "stderr_pipe gl = stderr_pipe g"
    using play_file_Some [OF assms(1,2)] by blast
  have "last_interrupt (polls_run g g') = None"
    using assms(3) by (simp add: never_interrupted_last)
  then have "r = fst (play_file_finish None self' gl)"
    using gl(1) by simp
  then show ?thesis
    using gl(2) assms(4,5)
    by (auto simp: play_file_finish_def failure_text_def Let_def min_def split: sum.splits)
qed

text \<open>
  Claim C7. \<^verbatim>\<open>aplay\<close> writes 4096 bytes to its standard error and exits with a failure. The
  read fills \<^verbatim>\<open>stderr_bytes\<close>, and the terminator is stored at index 4096 of an array of 4096
  elements: the call has no defined result, where the claim promises a failure whose
  text is the 4096 bytes read.
\<close>

theorem full_stderr_read_overflows:
  "map_option fst (ev3dev_Speaker_play_file open_speaker (MP_str ''a.wav'') flooded_play_gio)
     = Some (Inl (Undefined ''stderr_bytes[4096]: store past the end of the array''))"
  by (simp add: ev3dev_Speaker_play_file_def mp_obj_str_get_str_def flooded_play_gio_def quiet_gio_def
      event_poll_hook_def ev3dev_Speaker_aplay_callback_def play_file_finish_def failure_text_def)

end
